theory Spec2Isabelle
  imports Main "HOL-Library.Sublist" "HOL-Library.Char_ord" "HOL-Library.List_Lexorder"
begin

section \<open>Text primitives of the surgical mutator\<close>

text \<open>
  The editor is \<^verbatim>\<open>src/assets/skills/xml-surgeon/scripts/lib.py\<close> with its driver
  \<^verbatim>\<open>main.py\<close>. A Python \<^verbatim>\<open>str\<close> is modelled as a \<^typ>\<open>string\<close>, one \<^typ>\<open>char\<close> per
  code point below 256; offsets are natural numbers, and \<^verbatim>\<open>-1\<close> of \<^verbatim>\<open>str.find\<close> is
  \<^const>\<open>None\<close>.
\<close>

abbreviation dq :: char where "dq \<equiv> CHR 0x22"
abbreviation sq :: char where "sq \<equiv> CHR 0x27"
abbreviation bsl :: char where "bsl \<equiv> CHR 0x5C"
abbreviation nl :: char where "nl \<equiv> CHR 0x0A"

text \<open>
  Every \<^verbatim>\<open>fail(msg)\<close> of the source raises \<^verbatim>\<open>SystemExit(2)\<close>; the constructors name the
  call sites by the error kinds of the specification. \<^verbatim>\<open>TemplateError\<close> is the
  \<^verbatim>\<open>re.error\<close> (or \<^verbatim>\<open>IndexError\<close>) that \<^verbatim>\<open>re.sub\<close> raises on a malformed replacement
  template, \<^verbatim>\<open>IOError\<close> the \<^verbatim>\<open>OSError\<close> of \<^verbatim>\<open>open\<close>, \<^verbatim>\<open>WriterError\<close> an exception of the
  serializer, \<^verbatim>\<open>AssertionError\<close> a failed \<^verbatim>\<open>assert\<close>; none of these is caught anywhere.
\<close>

datatype error =
    ParseError
  | QueryError
  | SelectionError
  | StructuralError
  | UsageError
  | TemplateError
  | IOError
  | WriterError
  | AssertionError

text \<open>\<^verbatim>\<open>str.isspace\<close>, which is also \<^verbatim>\<open>\s\<close> of a \<^verbatim>\<open>str\<close> pattern, on code points below 256.\<close>

definition is_space :: "char \<Rightarrow> bool" where
  "is_space c = ((of_char c :: nat) \<in> {9, 10, 11, 12, 13, 28, 29, 30, 31, 32, 133, 160})"

definition rstrip :: "string \<Rightarrow> string" where
  "rstrip s = rev (dropWhile is_space (rev s))"

definition strip :: "string \<Rightarrow> string" where
  "strip s = dropWhile is_space (rstrip s)"

text \<open>First index of \<open>needle\<close> in \<open>s\<close>.\<close>

fun find_sub :: "string \<Rightarrow> string \<Rightarrow> nat option" where
  "find_sub needle [] = (if needle = [] then Some 0 else None)"
| "find_sub needle (c # cs) =
     (if prefix needle (c # cs) then Some 0 else map_option Suc (find_sub needle cs))"

text \<open>\<^verbatim>\<open>text.find(needle, start)\<close>.\<close>

definition py_find :: "string \<Rightarrow> string \<Rightarrow> nat \<Rightarrow> nat option" where
  "py_find text needle start =
     (if start > length text then None
      else map_option (\<lambda>i. i + start) (find_sub needle (drop start text)))"

text \<open>\<^verbatim>\<open>text.rfind(needle)\<close>: the last index.\<close>

fun py_rfind :: "string \<Rightarrow> string \<Rightarrow> nat option" where
  "py_rfind [] needle = (if needle = [] then Some 0 else None)"
| "py_rfind (c # cs) needle =
     (case py_rfind cs needle of
        Some i \<Rightarrow> Some (Suc i)
      | None \<Rightarrow> if prefix needle (c # cs) then Some 0 else None)"

text \<open>\<^verbatim>\<open>s.replace(k, v)\<close> for a one-character \<open>k\<close>.\<close>

definition replace_char :: "char \<Rightarrow> string \<Rightarrow> string \<Rightarrow> string" where
  "replace_char k v s = concat (map (\<lambda>c. if c = k then v else [c]) s)"

text \<open>
  \<^verbatim>\<open>xml.sax.saxutils.escape(data, entities)\<close>: \<^verbatim>\<open>&\<close>, \<^verbatim>\<open>>\<close>, \<^verbatim>\<open><\<close> in this order, then
  the entries of \<open>entities\<close> (here at most one, a quote character).
\<close>

definition xml_escape :: "string \<Rightarrow> (char \<times> string) list \<Rightarrow> string" where
  "xml_escape data entities =
     fold (\<lambda>(k, v). replace_char k v) entities
       (replace_char (CHR ''<'') ''&lt;''
         (replace_char (CHR ''>'') ''&gt;''
           (replace_char (CHR ''&'') ''&amp;'' data)))"

definition escape_attr :: "string \<Rightarrow> char \<Rightarrow> string" where
  "escape_attr v quote =
     (if quote = dq then xml_escape v [(dq, ''&quot;'')]
      else xml_escape v [(sq, ''&apos;'')])"

subsection \<open>Line starts, local tag, tag span\<close>

fun line_starts_from :: "nat \<Rightarrow> string \<Rightarrow> nat list" where
  "line_starts_from idx [] = []"
| "line_starts_from idx (ch # cs) =
     (if ch = nl then (idx + 1) # line_starts_from (Suc idx) cs
      else line_starts_from (Suc idx) cs)"

definition line_starts :: "string \<Rightarrow> nat list" where
  "line_starts text = 0 # line_starts_from 0 text"

definition local_tag :: "string \<Rightarrow> string" where
  "local_tag tag =
     (if CHR ''}'' \<in> set tag then tl (dropWhile (\<lambda>c. c \<noteq> CHR ''}'') tag) else tag)"

text \<open>
  The \<^verbatim>\<open>while i < len(text)\<close> loop of \<^verbatim>\<open>find_start_tag_span\<close>, over the text from
  offset \<open>i\<close> on: the offset of the first \<^verbatim>\<open>>\<close> outside quotes.
\<close>

fun scan_tag :: "string \<Rightarrow> char option \<Rightarrow> nat \<Rightarrow> nat option" where
  "scan_tag [] in_quote i = None"
| "scan_tag (ch # cs) in_quote i =
     (if ch = dq \<or> ch = sq then
        (case in_quote of
           None \<Rightarrow> scan_tag cs (Some ch) (Suc i)
         | Some q \<Rightarrow> if q = ch then scan_tag cs None (Suc i) else scan_tag cs in_quote (Suc i))
      else if ch = CHR ''>'' \<and> in_quote = None then Some i
      else scan_tag cs in_quote (Suc i))"

definition find_start_tag_span :: "string \<Rightarrow> nat \<Rightarrow> string \<Rightarrow> (nat \<times> nat) option" where
  "find_start_tag_span text line_start tag =
     (case (case py_find text (CHR ''<'' # tag) line_start of
              Some s \<Rightarrow> Some s
            | None \<Rightarrow> py_find text ''<'' line_start) of
        None \<Rightarrow> None
      | Some start \<Rightarrow>
          map_option (\<lambda>e. (start, e)) (scan_tag (drop start text) None start))"

subsection \<open>The attribute pattern\<close>

text \<open>
  \<^verbatim>\<open>(\s+NAME\s*=\s*)(["'])(.*?)\2\<close> with \<^verbatim>\<open>NAME = re.escape(name)\<close>, searched by
  \<^verbatim>\<open>pattern.search\<close>. \<open>match_assign\<close> matches the part after \<^verbatim>\<open>\s+\<close>: the greedy \<^verbatim>\<open>\s*\<close>
  never gives anything back (the next item is not white space), the lazy \<^verbatim>\<open>.*?\<close> stops at
  the first closing quote and never crosses a newline. It returns the matched text up to
  the opening quote, the quote, the old value and the rest after the closing quote.
\<close>

definition match_assign :: "string \<Rightarrow> string \<Rightarrow> (string \<times> char \<times> string \<times> string) option" where
  "match_assign name s =
     (if prefix name s then
        (let s1 = drop (length name) s;
             w1 = takeWhile is_space s1 in
         case dropWhile is_space s1 of
           [] \<Rightarrow> None
         | c # s3 \<Rightarrow>
             if c \<noteq> CHR ''='' then None
             else
               (let w2 = takeWhile is_space s3 in
                case dropWhile is_space s3 of
                  [] \<Rightarrow> None
                | q # s5 \<Rightarrow>
                    if q \<noteq> dq \<and> q \<noteq> sq then None
                    else
                      (let v = takeWhile (\<lambda>x. x \<noteq> q \<and> x \<noteq> nl) s5 in
                       case dropWhile (\<lambda>x. x \<noteq> q \<and> x \<noteq> nl) s5 of
                         [] \<Rightarrow> None
                       | c' # r \<Rightarrow>
                           if c' = q then Some (name @ w1 @ ''='' @ w2, q, v, r)
                           else None)))
      else None)"

text \<open>The greedy \<^verbatim>\<open>\s+\<close> at the start of \<open>s\<close>: the longest run first, then shorter ones.\<close>

fun try_ws :: "string \<Rightarrow> string \<Rightarrow> nat \<Rightarrow> (string \<times> char \<times> string \<times> string) option" where
  "try_ws name s 0 = None"
| "try_ws name s (Suc k) =
     (case match_assign name (drop (Suc k) s) of
        Some (g, q, v, r) \<Rightarrow> Some (take (Suc k) s @ g, q, v, r)
      | None \<Rightarrow> try_ws name s k)"

definition match_here :: "string \<Rightarrow> string \<Rightarrow> (string \<times> char \<times> string \<times> string) option" where
  "match_here name s = try_ws name s (length (takeWhile is_space s))"

text \<open>
  The leftmost match: the text before it, group 1, the quote (group 2), the old value
  (group 3) and the text after the match.
\<close>

fun search_attr :: "string \<Rightarrow> string \<Rightarrow> (string \<times> string \<times> char \<times> string \<times> string) option" where
  "search_attr name [] = None"
| "search_attr name (c # cs) =
     (case match_here name (c # cs) of
        Some (g, q, v, r) \<Rightarrow> Some ([], g, q, v, r)
      | None \<Rightarrow>
          (case search_attr name cs of
             None \<Rightarrow> None
           | Some (p, g, q, v, r) \<Rightarrow> Some (c # p, g, q, v, r)))"

subsection \<open>Replacement templates of \<^verbatim>\<open>re.sub\<close>\<close>

text \<open>
  A \<^verbatim>\<open>str\<close> replacement given to \<^verbatim>\<open>re.sub\<close> is a template: \<^verbatim>\<open>re._parser.parse_template\<close>
  (CPython 3.12 and later) reads it token by token, and a backslash starts an escape.
  \<open>tmpl_escape\<close> takes the character after the backslash and the text after it, and
  returns the text the escape stands for with the number of further characters it used,
  or \<^const>\<open>None\<close> where the parser raises.
\<close>

definition is_digit :: "char \<Rightarrow> bool" where
  "is_digit c = (48 \<le> (of_char c :: nat) \<and> (of_char c :: nat) \<le> 57)"

definition is_octdigit :: "char \<Rightarrow> bool" where
  "is_octdigit c = (48 \<le> (of_char c :: nat) \<and> (of_char c :: nat) \<le> 55)"

definition is_ascii_letter :: "char \<Rightarrow> bool" where
  "is_ascii_letter c =
     ((65 \<le> (of_char c :: nat) \<and> (of_char c :: nat) \<le> 90) \<or>
      (97 \<le> (of_char c :: nat) \<and> (of_char c :: nat) \<le> 122))"

definition digit_val :: "char \<Rightarrow> nat" where
  "digit_val c = of_char c - 48"

definition decimal_val :: "string \<Rightarrow> nat" where
  "decimal_val ds = foldl (\<lambda>a c. 10 * a + digit_val c) 0 ds"

definition group_ref :: "(nat \<Rightarrow> string) \<Rightarrow> nat \<Rightarrow> nat \<Rightarrow> nat \<Rightarrow> (string \<times> nat) option" where
  "group_ref groups ngroups idx used =
     (if idx > ngroups then None else Some (groups idx, used))"

definition tmpl_escape ::
  "(nat \<Rightarrow> string) \<Rightarrow> nat \<Rightarrow> char \<Rightarrow> string \<Rightarrow> (string \<times> nat) option" where
  "tmpl_escape groups ngroups c rest =
     (if c = CHR ''g'' then
        (case rest of
           [] \<Rightarrow> None
         | lt # r1 \<Rightarrow>
             if lt \<noteq> CHR ''<'' then None
             else
               (let name = takeWhile (\<lambda>x. x \<noteq> CHR ''>'') r1 in
                case dropWhile (\<lambda>x. x \<noteq> CHR ''>'') r1 of
                  [] \<Rightarrow> None
                | gt # r2 \<Rightarrow>
                    if name = [] then None
                    else if list_all is_digit name
                    then group_ref groups ngroups (decimal_val name) (length name + 2)
                    else None))
      else if c = CHR ''0'' then
        (case rest of
           [] \<Rightarrow> Some ([char_of (0::nat)], 0)
         | d1 # r1 \<Rightarrow>
             if is_octdigit d1 then
               (case r1 of
                  [] \<Rightarrow> Some ([char_of (digit_val d1)], 1)
                | d2 # r2 \<Rightarrow>
                    if is_octdigit d2
                    then Some ([char_of (8 * digit_val d1 + digit_val d2)], 2)
                    else Some ([char_of (digit_val d1)], 1))
             else Some ([char_of (0::nat)], 0))
      else if is_digit c then
        (case rest of
           [] \<Rightarrow> group_ref groups ngroups (digit_val c) 0
         | d1 # r1 \<Rightarrow>
             if is_digit d1 then
               (case r1 of
                  [] \<Rightarrow> group_ref groups ngroups (10 * digit_val c + digit_val d1) 1
                | d2 # r2 \<Rightarrow>
                    if is_octdigit c \<and> is_octdigit d1 \<and> is_octdigit d2 then
                      (let v = 64 * digit_val c + 8 * digit_val d1 + digit_val d2 in
                       if v > 255 then None else Some ([char_of v], 2))
                    else group_ref groups ngroups (10 * digit_val c + digit_val d1) 1)
             else group_ref groups ngroups (digit_val c) 0)
      else if c = CHR ''a'' then Some ([char_of (7::nat)], 0)
      else if c = CHR ''b'' then Some ([char_of (8::nat)], 0)
      else if c = CHR ''f'' then Some ([char_of (12::nat)], 0)
      else if c = CHR ''n'' then Some ([nl], 0)
      else if c = CHR ''r'' then Some ([char_of (13::nat)], 0)
      else if c = CHR ''t'' then Some ([char_of (9::nat)], 0)
      else if c = CHR ''v'' then Some ([char_of (11::nat)], 0)
      else if c = bsl then Some ([bsl], 0)
      else if is_ascii_letter c then None
      else Some ([bsl, c], 0))"

fun expand_template :: "(nat \<Rightarrow> string) \<Rightarrow> nat \<Rightarrow> string \<Rightarrow> error + string" where
  "expand_template groups ngroups [] = Inr []"
| "expand_template groups ngroups [c] =
     (if c = bsl then Inl TemplateError else Inr [c])"
| "expand_template groups ngroups (c # d # ds) =
     (if c \<noteq> bsl then
        (case expand_template groups ngroups (d # ds) of
           Inl e \<Rightarrow> Inl e
         | Inr out \<Rightarrow> Inr (c # out))
      else
        (case tmpl_escape groups ngroups d ds of
           None \<Rightarrow> Inl TemplateError
         | Some (lit, used) \<Rightarrow>
             (case expand_template groups ngroups (drop used ds) of
                Inl e \<Rightarrow> Inl e
              | Inr out \<Rightarrow> Inr (lit @ out))))"

subsection \<open>Editing one tag\<close>

definition set_attr_in_tag :: "string \<Rightarrow> string \<Rightarrow> string \<Rightarrow> error + (string \<times> bool)" where
  "set_attr_in_tag tag_text name v =
     (case search_attr name tag_text of
        Some (pre, g1, quote, old, rest) \<Rightarrow>
          (let escaped = escape_attr v quote;
               replacement = g1 @ [quote] @ escaped @ [quote];
               groups = (\<lambda>i::nat. if i = 0 then g1 @ [quote] @ old @ [quote]
                                else if i = 1 then g1
                                else if i = 2 then [quote] else old)
           in case expand_template groups 3 replacement of
                Inl e \<Rightarrow> Inl e
              | Inr new \<Rightarrow> Inr (pre @ new @ rest, True))
      | None \<Rightarrow>
          (let ins = '' '' @ name @ ''='' @ [dq] @ escape_attr v dq @ [dq] in
           if suffix ''/>'' (rstrip tag_text) then
             (case py_rfind tag_text ''/>'' of
                Some idx \<Rightarrow> Inr (take idx tag_text @ ins @ drop idx tag_text, True)
              | None \<Rightarrow> Inr (butlast tag_text @ ins @ drop (length tag_text - 1) tag_text, True))
           else if suffix ''>'' (rstrip tag_text) then
             (case py_rfind tag_text ''>'' of
                Some idx \<Rightarrow> Inr (take idx tag_text @ ins @ drop idx tag_text, True)
              | None \<Rightarrow> Inr (butlast tag_text @ ins @ drop (length tag_text - 1) tag_text, True))
           else Inr (tag_text, False)))"

definition del_attr_in_tag :: "string \<Rightarrow> string \<Rightarrow> string \<times> bool" where
  "del_attr_in_tag tag_text name =
     (case search_attr name tag_text of
        None \<Rightarrow> (tag_text, False)
      | Some (pre, g1, quote, old, rest) \<Rightarrow> (pre @ rest, True))"

text \<open>\<^verbatim>\<open>/\s*>\s*$\<close>: a slash, white space, \<^verbatim>\<open>>\<close>, and only white space up to the end.\<close>

definition selfclose_here :: "string \<Rightarrow> bool" where
  "selfclose_here s =
     (case s of
        [] \<Rightarrow> False
      | c # cs \<Rightarrow>
          c = CHR ''/'' \<and>
          (case dropWhile is_space cs of
             [] \<Rightarrow> False
           | d # ds \<Rightarrow> d = CHR ''>'' \<and> list_all is_space ds))"

fun search_selfclose :: "string \<Rightarrow> nat option" where
  "search_selfclose [] = None"
| "search_selfclose (c # cs) =
     (if selfclose_here (c # cs) then Some 0 else map_option Suc (search_selfclose cs))"

section \<open>Elements\<close>

text \<open>
  What the code reads of an \<^verbatim>\<open>lxml\<close> element: tag, attributes, text, tail, parent,
  children (\<^verbatim>\<open>len(el)\<close> is their number) and source line. Elements live in a store and
  are referred to by their index, as \<^verbatim>\<open>lxml\<close> refers to them by identity.
\<close>

record element =
  el_tag :: string
  el_attrib :: "(string \<times> string) list"
  el_text :: "string option"
  el_tail :: "string option"
  el_parent :: "nat option"
  el_children :: "nat list"
  el_sourceline :: "int option"

section \<open>The surgical mutators\<close>

text \<open>\<^verbatim>\<open>line = el.sourceline or 0\<close>.\<close>

definition source_line :: "element \<Rightarrow> int" where
  "source_line el = (case el_sourceline el of None \<Rightarrow> 0 | Some l \<Rightarrow> l)"

type_synonym edit = "nat \<times> nat \<times> string"

text \<open>The \<^verbatim>\<open>for el in elements\<close> loop: the first failing step ends it.\<close>

fun for_each :: "('a \<Rightarrow> 's \<Rightarrow> error + 's) \<Rightarrow> 'a list \<Rightarrow> 's \<Rightarrow> error + 's" where
  "for_each step [] acc = Inr acc"
| "for_each step (x # xs) acc =
     (case step x acc of Inl err \<Rightarrow> Inl err | Inr acc' \<Rightarrow> for_each step xs acc')"

text \<open>\<^verbatim>\<open>sorted(edits, key=lambda x: x[0], reverse=True)\<close>: stable, descending.\<close>

definition sorted_rev :: "edit list \<Rightarrow> edit list" where
  "sorted_rev edits = rev (sort_key fst (rev edits))"

definition attr_step ::
  "string \<Rightarrow> nat list \<Rightarrow> string \<Rightarrow> string option \<Rightarrow> bool \<Rightarrow> element \<Rightarrow>
   nat set \<times> edit list \<Rightarrow> error + (nat set \<times> edit list)" where
  "attr_step txt starts name v set_value el acc =
     (case acc of (seen, edits) \<Rightarrow>
       (let line = source_line el in
        if line \<le> 0 \<or> line > int (length starts) then Inr (seen, edits)
        else
          (let tag = local_tag (el_tag el) in
           case find_start_tag_span txt (starts ! nat (line - 1)) tag of
             None \<Rightarrow> Inr (seen, edits)
           | Some (start, e) \<Rightarrow>
               if start \<in> seen then Inr (seen, edits)
               else
                 (let tag_text = take (e + 1 - start) (drop start txt) in
                  case (if set_value
                        then set_attr_in_tag tag_text name (case v of None \<Rightarrow> [] | Some x \<Rightarrow> x)
                        else Inr (del_attr_in_tag tag_text name)) of
                    Inl err \<Rightarrow> Inl err
                  | Inr (new_tag, changed) \<Rightarrow>
                      Inr (insert start seen,
                           if changed \<and> new_tag \<noteq> tag_text
                           then edits @ [(start, e, new_tag)] else edits)))))"

definition collect_attr ::
  "string \<Rightarrow> nat list \<Rightarrow> string \<Rightarrow> string option \<Rightarrow> bool \<Rightarrow> element list \<Rightarrow>
   nat set \<times> edit list \<Rightarrow> error + (nat set \<times> edit list)" where
  "collect_attr txt starts name v set_value elements acc =
     for_each (attr_step txt starts name v set_value) elements acc"

definition splice_incl :: "edit \<Rightarrow> string \<Rightarrow> string" where
  "splice_incl ed txt = (case ed of (start, e, new_tag) \<Rightarrow>
     take start txt @ new_tag @ drop (e + 1) txt)"

definition apply_attr_surgical ::
  "string \<Rightarrow> element list \<Rightarrow> string \<Rightarrow> string option \<Rightarrow> bool \<Rightarrow> error + (string \<times> nat)" where
  "apply_attr_surgical txt elements name v set_value =
     (case collect_attr txt (line_starts txt) name v set_value elements ({}, []) of
        Inl err \<Rightarrow> Inl err
      | Inr (seen, edits) \<Rightarrow> Inr (fold splice_incl (sorted_rev edits) txt, length edits))"

definition text_step ::
  "string \<Rightarrow> nat list \<Rightarrow> string \<Rightarrow> element \<Rightarrow>
   nat set \<times> edit list \<Rightarrow> error + (nat set \<times> edit list)" where
  "text_step txt starts v el acc =
     (case acc of (seen, edits) \<Rightarrow>
       if length (el_children el) \<noteq> 0 then Inl SelectionError
       else
        (let line = source_line el in
         if line \<le> 0 \<or> line > int (length starts) then Inr (seen, edits)
         else
           (let tag = local_tag (el_tag el) in
            case find_start_tag_span txt (starts ! nat (line - 1)) tag of
              None \<Rightarrow> Inr (seen, edits)
            | Some (start, e) \<Rightarrow>
                if start \<in> seen then Inr (seen, edits)
                else
                  (let tag_text = take (e + 1 - start) (drop start txt) in
                   case search_selfclose tag_text of
                     Some i \<Rightarrow>
                       (case expand_template (\<lambda>k. drop i tag_text) 0
                               (''>'' @ xml_escape v [] @ ''</'' @ tag @ ''>'') of
                          Inl err \<Rightarrow> Inl err
                        | Inr r \<Rightarrow>
                            Inr (insert start seen, edits @ [(start, e, take i tag_text @ r)]))
                   | None \<Rightarrow>
                       (case py_find txt (''</'' @ tag @ ''>'') (e + 1) of
                          None \<Rightarrow> Inr (insert start seen, edits)
                        | Some end_tag_idx \<Rightarrow>
                            Inr (insert start seen,
                                 edits @ [(e + 1, end_tag_idx, xml_escape v [])]))))))"

definition collect_text ::
  "string \<Rightarrow> nat list \<Rightarrow> string \<Rightarrow> element list \<Rightarrow>
   nat set \<times> edit list \<Rightarrow> error + (nat set \<times> edit list)" where
  "collect_text txt starts v elements acc = for_each (text_step txt starts v) elements acc"

definition splice_excl :: "edit \<Rightarrow> string \<Rightarrow> string" where
  "splice_excl ed txt = (case ed of (start, e, new_text) \<Rightarrow>
     take start txt @ new_text @ drop e txt)"

definition apply_text_surgical ::
  "string \<Rightarrow> element list \<Rightarrow> string \<Rightarrow> error + (string \<times> nat)" where
  "apply_text_surgical txt elements v =
     (case collect_text txt (line_starts txt) v elements ({}, []) of
        Inl err \<Rightarrow> Inl err
      | Inr (seen, edits) \<Rightarrow> Inr (fold splice_excl (sorted_rev edits) txt, length edits))"

section \<open>The document tree\<close>

text \<open>
  The elements of a parsed document, by index; indices from \<open>next_id\<close> on are free.
  \<^verbatim>\<open>lxml\<close> keeps the tail of an element with the element, so inserting or removing an
  element moves its tail with it.
\<close>

record store =
  nodes :: "nat \<Rightarrow> element"
  next_id :: nat

text \<open>
  A node of the fragment given on the command line (\<^verbatim>\<open>read_xml_fragment\<close> returns the
  children of the wrapper element). The fragment nodes are only ever copied.
\<close>

datatype fragment =
  Fragment (fr_tag: string) (fr_attrib: "(string \<times> string) list") (fr_text: "string option")
    (fr_children: "fragment list") (fr_tail: "string option") (fr_sourceline: "int option")

text \<open>
  \<^verbatim>\<open>copy.deepcopy(n)\<close>: the node and its descendants get fresh indices; the copy has no
  parent.
\<close>

fun deepcopy :: "fragment \<Rightarrow> nat option \<Rightarrow> store \<Rightarrow> nat \<times> store"
  and deepcopy_list :: "fragment list \<Rightarrow> nat option \<Rightarrow> store \<Rightarrow> nat list \<times> store" where
  "deepcopy (Fragment tg at tx kids ta sl) par st =
     (let me = next_id st;
          (kid_ids, st1) = deepcopy_list kids (Some me) (st\<lparr>next_id := Suc me\<rparr>)
      in (me, st1\<lparr>nodes := (nodes st1)(me :=
            \<lparr>el_tag = tg, el_attrib = at, el_text = tx, el_tail = ta, el_parent = par,
             el_children = kid_ids, el_sourceline = sl\<rparr>)\<rparr>))"
| "deepcopy_list [] par st = ([], st)"
| "deepcopy_list (f # fs) par st =
     (let (i, st1) = deepcopy f par st;
          (ids, st2) = deepcopy_list fs par st1
      in (i # ids, st2))"

text \<open>\<^verbatim>\<open>text is not None and text.strip() == ""\<close>.\<close>

definition ws_only :: "string option \<Rightarrow> bool" where
  "ws_only t = (case t of None \<Rightarrow> False | Some s \<Rightarrow> strip s = [])"

definition infer_indent_from :: "string option \<Rightarrow> string option" where
  "infer_indent_from t =
     (if t = None \<or> t = Some [] then None
      else if \<not> ws_only t then None
      else if nl \<notin> set (the t) then None
      else t)"

text \<open>The truth value of an optional string, and \<^verbatim>\<open>t or d\<close>.\<close>

definition truthy :: "string option \<Rightarrow> bool" where
  "truthy t = (case t of None \<Rightarrow> False | Some s \<Rightarrow> s \<noteq> [])"

definition or_else :: "string option \<Rightarrow> string \<Rightarrow> string" where
  "or_else t d = (if truthy t then the t else d)"

definition sibling_indent :: "store \<Rightarrow> nat \<Rightarrow> string" where
  "sibling_indent st target =
     (if truthy (infer_indent_from (el_tail (nodes st target)))
      then or_else (el_tail (nodes st target)) [nl]
      else
        (case el_parent (nodes st target) of
           None \<Rightarrow> [nl]
         | Some p \<Rightarrow>
             if truthy (infer_indent_from (el_text (nodes st p)))
             then or_else (el_text (nodes st p)) [nl]
             else [nl]))"

definition child_indent :: "store \<Rightarrow> nat \<Rightarrow> string" where
  "child_indent st p =
     (if truthy (infer_indent_from (el_text (nodes st p)))
      then or_else (el_text (nodes st p)) [nl]
      else if el_children (nodes st p) \<noteq> [] \<and>
              truthy (infer_indent_from (el_tail (nodes st (last (el_children (nodes st p))))))
      then or_else (el_tail (nodes st (last (el_children (nodes st p))))) [nl]
      else [nl])"

fun set_tails :: "nat list \<Rightarrow> string option \<Rightarrow> store \<Rightarrow> store" where
  "set_tails ns None st = st"
| "set_tails [] (Some t) st = st"
| "set_tails (n # ns) (Some t) st =
     set_tails ns (Some t) (st\<lparr>nodes := (nodes st)(n := (nodes st n)\<lparr>el_tail := Some t\<rparr>)\<rparr>)"

text \<open>
  \<^verbatim>\<open>parent.index(el)\<close> for a child \<open>el\<close> of the parent, \<^verbatim>\<open>parent.insert(idx, n)\<close> (an
  index beyond the end appends), \<^verbatim>\<open>el.append(n)\<close> and \<^verbatim>\<open>parent.remove(el)\<close>. The
  inserted nodes are fresh copies, so they have no old parent to leave.
\<close>

definition index_of :: "nat \<Rightarrow> nat list \<Rightarrow> nat" where
  "index_of el cs = length (takeWhile (\<lambda>x. x \<noteq> el) cs)"

definition insert_child :: "nat \<Rightarrow> nat \<Rightarrow> nat \<Rightarrow> store \<Rightarrow> store" where
  "insert_child p idx n st =
     (let cs = el_children (nodes st p);
          st1 = st\<lparr>nodes := (nodes st)(p := (nodes st p)\<lparr>el_children := take idx cs @ [n] @ drop idx cs\<rparr>)\<rparr>
      in st1\<lparr>nodes := (nodes st1)(n := (nodes st1 n)\<lparr>el_parent := Some p\<rparr>)\<rparr>)"

fun insert_all :: "nat \<Rightarrow> nat \<Rightarrow> nat list \<Rightarrow> store \<Rightarrow> store" where
  "insert_all p idx [] st = st"
| "insert_all p idx (n # ns) st = insert_all p (idx + 1) ns (insert_child p idx n st)"

fun append_all :: "nat \<Rightarrow> nat list \<Rightarrow> store \<Rightarrow> store" where
  "append_all p [] st = st"
| "append_all p (n # ns) st =
     append_all p ns (insert_child p (length (el_children (nodes st p))) n st)"

definition remove_child :: "nat \<Rightarrow> nat \<Rightarrow> store \<Rightarrow> store" where
  "remove_child p el st =
     (let st1 = st\<lparr>nodes := (nodes st)(p := (nodes st p)\<lparr>el_children := remove1 el (el_children (nodes st p))\<rparr>)\<rparr>
      in st1\<lparr>nodes := (nodes st1)(el := (nodes st1 el)\<lparr>el_parent := None\<rparr>)\<rparr>)"

text \<open>The bodies of the loops of \<^verbatim>\<open>apply_insert\<close>, \<^verbatim>\<open>apply_replace\<close> and \<^verbatim>\<open>apply_delete\<close>.\<close>

definition insert_step ::
  "fragment list \<Rightarrow> string \<Rightarrow> string option \<Rightarrow> nat \<Rightarrow> store \<times> nat \<Rightarrow> error + (store \<times> nat)" where
  "insert_step frs position indent_override el acc =
     (case acc of (st, changed) \<Rightarrow>
       if position = ''before'' \<or> position = ''after'' then
         (case el_parent (nodes st el) of
            None \<Rightarrow> Inl StructuralError
          | Some p \<Rightarrow>
              (let idx0 = index_of el (el_children (nodes st p));
                   idx = (if position = ''after'' then idx0 + 1 else idx0);
                   (clones, st1) = deepcopy_list frs None st;
                   tail = or_else indent_override (sibling_indent st1 el);
                   st2 = set_tails clones (Some tail) st1
               in Inr (insert_all p idx clones st2, changed + length clones)))
       else if position = ''inside-first'' \<or> position = ''inside-last'' then
         (let (clones, st1) = deepcopy_list frs None st;
              tail = or_else indent_override (child_indent st1 el);
              st2 = set_tails clones (Some tail) st1
          in Inr (if position = ''inside-first'' then insert_all el 0 clones st2
                  else append_all el clones st2,
                  changed + length clones))
       else Inl UsageError)"

definition replace_step ::
  "fragment list \<Rightarrow> string option \<Rightarrow> nat \<Rightarrow> store \<times> nat \<Rightarrow> error + (store \<times> nat)" where
  "replace_step frs indent_override el acc =
     (case acc of (st, changed) \<Rightarrow>
       (case el_parent (nodes st el) of
          None \<Rightarrow> Inl StructuralError
        | Some p \<Rightarrow>
            (let idx = index_of el (el_children (nodes st p));
                 (clones, st1) = deepcopy_list frs None st;
                 tail = or_else indent_override (sibling_indent st1 el);
                 st2 = set_tails clones (Some tail) st1;
                 st3 = insert_all p idx clones st2
             in Inr (remove_child p el st3, changed + 1))))"

definition delete_step :: "nat \<Rightarrow> store \<times> nat \<Rightarrow> error + (store \<times> nat)" where
  "delete_step el acc =
     (case acc of (st, changed) \<Rightarrow>
       (case el_parent (nodes st el) of
          None \<Rightarrow> Inl StructuralError
        | Some p \<Rightarrow> Inr (remove_child p el st, changed + 1)))"

definition apply_insert ::
  "store \<Rightarrow> nat list \<Rightarrow> fragment list \<Rightarrow> string \<Rightarrow> string option \<Rightarrow> error + (store \<times> nat)" where
  "apply_insert st elements frs position indent_override =
     for_each (insert_step frs position indent_override) elements (st, 0)"

definition apply_replace ::
  "store \<Rightarrow> nat list \<Rightarrow> fragment list \<Rightarrow> string option \<Rightarrow> error + (store \<times> nat)" where
  "apply_replace st elements frs indent_override =
     for_each (replace_step frs indent_override) elements (st, 0)"

definition apply_delete :: "store \<Rightarrow> nat list \<Rightarrow> error + (store \<times> nat)" where
  "apply_delete st elements = for_each delete_step elements (st, 0)"


section \<open>Loading and serializing a document\<close>

text \<open>
  File contents are byte strings, one \<^typ>\<open>char\<close> per byte. \<^verbatim>\<open>\s\<close> of a bytes pattern
  is ASCII white space.
\<close>

definition is_space_ascii :: "char \<Rightarrow> bool" where
  "is_space_ascii c = ((of_char c :: nat) \<in> {9, 10, 11, 12, 13, 32})"

text \<open>
  \<^verbatim>\<open>re.match(br"\s*<\?xml\s+[^>]*\?>", data)\<close>: after the white space and \<^verbatim>\<open><?xml\<close>,
  the text up to the first \<^verbatim>\<open>>\<close> starts with white space and ends with \<^verbatim>\<open>?\<close>.
\<close>

definition decl_match :: "string \<Rightarrow> bool" where
  "decl_match data =
     (let d1 = dropWhile is_space_ascii data in
      if prefix ''<?xml'' d1 then
        (case drop 5 d1 of
           [] \<Rightarrow> False
         | w # d3 \<Rightarrow>
             is_space_ascii w \<and>
             dropWhile (\<lambda>c. c \<noteq> CHR ''>'') (w # d3) \<noteq> [] \<and>
             last (takeWhile (\<lambda>c. c \<noteq> CHR ''>'') (w # d3)) = CHR ''?'')
      else False)"

text \<open>\<^verbatim>\<open>encoding=["']([^"']+)["']\<close> at the start of \<open>s\<close>: group 1.\<close>

definition enc_here :: "string \<Rightarrow> string option" where
  "enc_here s =
     (if prefix ''encoding='' s then
        (case drop 9 s of
           [] \<Rightarrow> None
         | q # r \<Rightarrow>
             if q = dq \<or> q = sq then
               (let v = takeWhile (\<lambda>c. c \<noteq> dq \<and> c \<noteq> sq) r in
                case dropWhile (\<lambda>c. c \<noteq> dq \<and> c \<noteq> sq) r of
                  [] \<Rightarrow> None
                | q2 # r2 \<Rightarrow> if v = [] then None else Some v)
             else None)
      else None)"

fun enc_search :: "string \<Rightarrow> string option" where
  "enc_search [] = None"
| "enc_search (c # cs) =
     (case enc_here (c # cs) of Some v \<Rightarrow> Some v | None \<Rightarrow> enc_search cs)"

text \<open>\<^verbatim>\<open>bytes.decode("ascii", "ignore")\<close>.\<close>

definition decode_ascii_ignore :: "string \<Rightarrow> string" where
  "decode_ascii_ignore bs = filter (\<lambda>c. (of_char c :: nat) < 128) bs"

definition detect_decl_and_encoding :: "string \<Rightarrow> bool \<times> string option" where
  "detect_decl_and_encoding data =
     (let has_decl = decl_match data in
      (has_decl,
       if has_decl then map_option decode_ascii_ignore (enc_search (take 200 data))
       else None))"

text \<open>
  A parsed document: the element store, the root, and the two fields of
  \<^verbatim>\<open>tree.docinfo\<close> the code reads (\<^verbatim>\<open>doctype\<close> is the empty string when there is none).
\<close>

record tree =
  tr_store :: store
  tr_root :: nat
  docinfo_encoding :: "string option"
  docinfo_doctype :: string

text \<open>A result of the query: an element, or anything else (a string, a number).\<close>

datatype item = Element nat | Scalar string

text \<open>
  The collaborators outside the repository, taken as parameters: \<^verbatim>\<open>glob.glob\<close>,
  \<^verbatim>\<open>etree.parse\<close> with the flags \<^verbatim>\<open>huge\<close> and \<^verbatim>\<open>recover\<close> (\<^const>\<open>None\<close> for
  \<^verbatim>\<open>XMLSyntaxError\<close>), \<^verbatim>\<open>tree.xpath\<close> (\<^const>\<open>None\<close> for \<^verbatim>\<open>XPathEvalError\<close>),
  \<^verbatim>\<open>tree.write\<close> with the arguments \<^verbatim>\<open>encoding\<close>, \<^verbatim>\<open>xml_declaration\<close> and \<^verbatim>\<open>doctype\<close>
  (\<^const>\<open>None\<close> when it raises), and \<^verbatim>\<open>etree.fromstring\<close> on a wrapped fragment.
\<close>

record lxml =
  ext_glob :: "string \<Rightarrow> string list"
  ext_parse :: "string \<Rightarrow> bool \<Rightarrow> bool \<Rightarrow> tree option"
  ext_xpath :: "tree \<Rightarrow> string \<Rightarrow> (string \<rightharpoonup> string) \<Rightarrow> item list option"
  ext_write :: "tree \<Rightarrow> string \<Rightarrow> bool \<Rightarrow> string option \<Rightarrow> string option"
  ext_fromstring :: "string \<Rightarrow> fragment list option"

definition serialize ::
  "(tree \<Rightarrow> string \<Rightarrow> bool \<Rightarrow> string option \<Rightarrow> string option) \<Rightarrow>
   tree \<Rightarrow> bool \<Rightarrow> string option \<Rightarrow> string option" where
  "serialize write tr has_decl enc =
     (let encoding = or_else enc (or_else (docinfo_encoding tr) ''utf-8'');
          doctype = (if docinfo_doctype tr \<noteq> [] then Some (docinfo_doctype tr) else None)
      in write tr encoding has_decl doctype)"

section \<open>The driver\<close>

text \<open>The sorted matches of a pattern are what \<open>glob\<close> returns, sorted by code point.\<close>

fun dedup :: "string list \<Rightarrow> string set \<Rightarrow> string list" where
  "dedup [] seen = []"
| "dedup (p # ps) seen = (if p \<in> seen then dedup ps seen else p # dedup ps (insert p seen))"

definition expand_paths :: "(string \<Rightarrow> string list) \<Rightarrow> string list \<Rightarrow> string list" where
  "expand_paths glob raw_paths =
     dedup (concat (map (\<lambda>raw. if \<exists>ch \<in> set ''*?[]''. ch \<in> set raw
                                then sort (glob raw) else [raw]) raw_paths)) {}"

definition parse_ns_item :: "string \<Rightarrow> (string \<rightharpoonup> string) \<Rightarrow> error + (string \<rightharpoonup> string)" where
  "parse_ns_item item ns_map =
     (if CHR ''='' \<notin> set item then Inl UsageError
      else
        (let pre = takeWhile (\<lambda>c. c \<noteq> CHR ''='') item;
             uri = tl (dropWhile (\<lambda>c. c \<noteq> CHR ''='') item)
         in if pre = [] \<or> uri = [] then Inl UsageError else Inr (ns_map(pre \<mapsto> uri))))"

definition parse_ns :: "string list \<Rightarrow> error + (string \<rightharpoonup> string)" where
  "parse_ns ns_items = for_each parse_ns_item ns_items Map.empty"

text \<open>\<^verbatim>\<open>items[:limit_count]\<close>; a negative count cuts from the end.\<close>

definition limit :: "'a list \<Rightarrow> int option \<Rightarrow> 'a list" where
  "limit items limit_count =
     (case limit_count of
        None \<Rightarrow> items
      | Some n \<Rightarrow> if 0 \<le> n then take (nat n) items
                  else take (length items - nat (- n)) items)"

definition ensure_elements :: "item list \<Rightarrow> error + nat list" where
  "ensure_elements items =
     (let elements = concat (map (\<lambda>x. case x of Element i \<Rightarrow> [i] | Scalar s \<Rightarrow> []) items)
      in if length elements \<noteq> length items then Inl SelectionError else Inr elements)"

record args =
  a_paths :: "string list"
  a_xpath :: string
  a_ns :: "string list"
  a_limit :: "int option"
  a_huge :: bool
  a_recover :: bool
  a_in_place :: bool
  a_diff :: bool
  a_reformat_ok :: bool
  a_xml :: "string option"
  a_xml_file :: "string option"
  a_indent :: "string option"

text \<open>
  What \<^verbatim>\<open>show_diff\<close> and \<^verbatim>\<open>summarize\<close> print: the path with the original and the
  updated bytes, and the path with the match count, the change count and whether the file
  was written.
\<close>

datatype event = Diff string string string | Summary string nat nat bool

record world =
  files :: "string \<rightharpoonup> string"
  printed :: "event list"

text \<open>\<^verbatim>\<open>parse_doc\<close>: the bytes, the detected declaration, and the tree.\<close>

definition parse_doc ::
  "lxml \<Rightarrow> (string \<rightharpoonup> string) \<Rightarrow> string \<Rightarrow> bool \<Rightarrow> bool \<Rightarrow>
   error + (tree \<times> string \<times> bool \<times> string option)" where
  "parse_doc ext fs path huge recover =
     (case fs path of
        None \<Rightarrow> Inl IOError
      | Some data \<Rightarrow>
          (case detect_decl_and_encoding data of (has_decl, enc) \<Rightarrow>
             (case ext_parse ext data huge recover of
                None \<Rightarrow> Inl ParseError
              | Some tr \<Rightarrow> Inr (tr, data, has_decl, enc))))"

text \<open>The body of the \<^verbatim>\<open>for path in paths\<close> loop of \<^verbatim>\<open>mutate_files\<close>.\<close>

definition mutate_one ::
  "lxml \<Rightarrow> args \<Rightarrow> (store \<Rightarrow> nat list \<Rightarrow> error + (store \<times> nat)) \<Rightarrow> (string \<rightharpoonup> string) \<Rightarrow>
   string \<Rightarrow> world \<Rightarrow> error + world" where
  "mutate_one ext a mutator ns_map path w =
     (case parse_doc ext (files w) path (a_huge a) (a_recover a) of
        Inl err \<Rightarrow> Inl err
      | Inr (tr, original, has_decl, enc) \<Rightarrow>
          (case ext_xpath ext tr (a_xpath a) ns_map of
             None \<Rightarrow> Inl QueryError
           | Some items \<Rightarrow>
               (case ensure_elements (limit items (a_limit a)) of
                  Inl err \<Rightarrow> Inl err
                | Inr elements \<Rightarrow>
                    (case mutator (tr_store tr) elements of
                       Inl err \<Rightarrow> Inl err
                     | Inr (st', changed) \<Rightarrow>
                         (case serialize (ext_write ext) (tr\<lparr>tr_store := st'\<rparr>) has_decl enc of
                            None \<Rightarrow> Inl WriterError
                          | Some updated \<Rightarrow>
                              (let wrote = (changed \<noteq> 0 \<and> a_in_place a);
                                   fs' = (if wrote then (files w)(path \<mapsto> updated) else files w);
                                   out = (if a_diff a \<and> changed \<noteq> 0
                                          then [Diff path original updated] else []) @
                                         [Summary path (length elements) changed wrote]
                               in Inr \<lparr>files = fs', printed = printed w @ out\<rparr>))))))"

text \<open>
  The loop over the paths. An exception ends the run; what was written and printed before
  stays. The result is the world at the end and the exception, if any.
\<close>

fun run_files :: "(string \<Rightarrow> world \<Rightarrow> error + world) \<Rightarrow> string list \<Rightarrow> world \<Rightarrow> world \<times> error option" where
  "run_files step [] w = (w, None)"
| "run_files step (p # ps) w =
     (case step p w of Inl err \<Rightarrow> (w, Some err) | Inr w' \<Rightarrow> run_files step ps w')"

definition mutate_files ::
  "lxml \<Rightarrow> args \<Rightarrow> (store \<Rightarrow> nat list \<Rightarrow> error + (store \<times> nat)) \<Rightarrow> world \<Rightarrow> world \<times> error option" where
  "mutate_files ext a mutator w =
     (case parse_ns (a_ns a) of
        Inl err \<Rightarrow> (w, Some err)
      | Inr ns_map \<Rightarrow>
          (let paths = expand_paths (ext_glob ext) (a_paths a) in
           if paths = [] then (w, Some UsageError)
           else run_files (mutate_one ext a mutator ns_map) paths w))"

definition read_xml_fragment ::
  "lxml \<Rightarrow> (string \<rightharpoonup> string) \<Rightarrow> string option \<Rightarrow> string option \<Rightarrow> error + fragment list" where
  "read_xml_fragment ext fs xml xml_file =
     (if xml = None \<and> xml_file = None then Inl UsageError
      else if xml \<noteq> None \<and> xml_file \<noteq> None then Inl UsageError
      else
        (case (if truthy xml_file then
                 (case fs (the xml_file) of None \<Rightarrow> Inl IOError | Some s \<Rightarrow> Inr (Some s))
               else Inr xml) of
           Inl err \<Rightarrow> Inl err
         | Inr None \<Rightarrow> Inl AssertionError
         | Inr (Some x) \<Rightarrow>
             (case ext_fromstring ext (''<_wrap>'' @ x @ ''</_wrap>'') of
                None \<Rightarrow> Inl ParseError
              | Some frs \<Rightarrow> Inr frs)))"

definition cmd_replace :: "lxml \<Rightarrow> args \<Rightarrow> world \<Rightarrow> world \<times> error option" where
  "cmd_replace ext a w =
     (if \<not> a_reformat_ok a then (w, Some UsageError)
      else
        (case read_xml_fragment ext (files w) (a_xml a) (a_xml_file a) of
           Inl err \<Rightarrow> (w, Some err)
         | Inr frs \<Rightarrow>
             mutate_files ext a (\<lambda>st elements. apply_replace st elements frs (a_indent a)) w))"

definition cmd_delete :: "lxml \<Rightarrow> args \<Rightarrow> world \<Rightarrow> world \<times> error option" where
  "cmd_delete ext a w =
     (if \<not> a_reformat_ok a then (w, Some UsageError)
      else mutate_files ext a apply_delete w)"

definition cmd_insert :: "lxml \<Rightarrow> args \<Rightarrow> string \<Rightarrow> world \<Rightarrow> world \<times> error option" where
  "cmd_insert ext a position w =
     (if \<not> a_reformat_ok a then (w, Some UsageError)
      else
        (case read_xml_fragment ext (files w) (a_xml a) (a_xml_file a) of
           Inl err \<Rightarrow> (w, Some err)
         | Inr frs \<Rightarrow>
             mutate_files ext a
               (\<lambda>st elements. apply_insert st elements frs position (a_indent a)) w))"

section \<open>Example inputs\<close>

text \<open>An element without children or attributes whose start tag the parser saw on line \<open>l\<close>.\<close>

definition leaf :: "string \<Rightarrow> int \<Rightarrow> element" where
  "leaf t l =
     \<lparr>el_tag = t, el_attrib = [], el_text = None, el_tail = None, el_parent = None,
      el_children = [], el_sourceline = Some l\<rparr>"

text \<open>
  A well-formed one-line document: a comment that mentions \<^verbatim>\<open><a '\<close>, the elements \<^verbatim>\<open>b\<close>
  and \<^verbatim>\<open>a\<close>, an apostrophe as character data, and a comment after the root element.
\<close>

definition comment_doc :: string where
  "comment_doc =
     ''<r><!-- <a '' @ [sq] @ '' --><b k='' @ [dq] @ ''v'' @ [dq] @ ''/><a/>'' @ [sq] @
     ''</r><!-- tail -->''"

text \<open>
  The tree of \<^verbatim>\<open><r><a/></r>\<close>: the root \<^verbatim>\<open>r\<close> is element 0, its child \<^verbatim>\<open>a\<close> element 1.
\<close>

definition demo_store :: store where
  "demo_store =
     \<lparr>nodes = (\<lambda>i. if i = 0 then (leaf ''r'' 1)\<lparr>el_children := [1]\<rparr>
                   else (leaf ''a'' 1)\<lparr>el_parent := Some 0\<rparr>),
      next_id = 2\<rparr>"

definition demo_tree :: tree where
  "demo_tree =
     \<lparr>tr_store = demo_store, tr_root = 0, docinfo_encoding = None, docinfo_doctype = []\<rparr>"

text \<open>
  Stand-ins for the collaborators on the two files of \<open>demo_world\<close>: the parser accepts
  \<^verbatim>\<open><r><a/></r>\<close> and rejects everything else, the query \<^verbatim>\<open>/r\<close> selects the root and
  \<^verbatim>\<open>/r/a\<close> the child, and the writer returns \<^verbatim>\<open><r/>\<close>.
\<close>

definition demo_lxml :: lxml where
  "demo_lxml =
     \<lparr>ext_glob = (\<lambda>raw. []),
      ext_parse = (\<lambda>data huge recover. if data = ''<r><a/></r>'' then Some demo_tree else None),
      ext_xpath = (\<lambda>tr q ns. if q = ''/r'' then Some [Element 0]
                               else if q = ''/r/a'' then Some [Element 1] else Some []),
      ext_write = (\<lambda>tr enc decl doctype. Some ''<r/>''),
      ext_fromstring = (\<lambda>s. None)\<rparr>"

definition demo_args :: "string list \<Rightarrow> string \<Rightarrow> args" where
  "demo_args paths xpath =
     \<lparr>a_paths = paths, a_xpath = xpath, a_ns = [], a_limit = None, a_huge = False,
      a_recover = False, a_in_place = True, a_diff = False, a_reformat_ok = True,
      a_xml = None, a_xml_file = None, a_indent = None\<rparr>"

definition demo_world :: world where
  "demo_world =
     \<lparr>files = [''bad.xml'' \<mapsto> ''<r><a'', ''good.xml'' \<mapsto> ''<r><a/></r>''], printed = []\<rparr>"




text \<open>
  A well-formed one-line document whose comment mentions \<^verbatim>\<open><r <a '\<close>: an apostrophe
  follows the two tag openers and no other apostrophe follows in the document.
\<close>

definition unlocated_doc :: string where
  "unlocated_doc = ''<!-- <r <a '' @ [sq] @ '' --><r><a/></r>''"

text \<open>A one-line document with two elements that carry an attribute and text.\<close>

definition two_tag_doc :: string where
  "two_tag_doc =
     ''<r><a k='' @ [dq] @ ''1'' @ [dq] @ ''>x</a><b k='' @ [dq] @ ''2'' @ [dq] @ ''>y</b></r>''"

section \<open>Notions of the specification\<close>

text \<open>
  The element is one the surgical mutators cannot locate: its source line is unknown or
  beyond the line starts of the text, or no tag span is found from that line on.
\<close>

definition not_located :: "string \<Rightarrow> element \<Rightarrow> bool" where
  "not_located txt el =
     (source_line el \<le> 0 \<or> source_line el > int (length (line_starts txt)) \<or>
      find_start_tag_span txt (line_starts txt ! nat (source_line el - 1))
        (local_tag (el_tag el)) = None)"



text \<open>An element of the store without parent: the document root.\<close>

definition is_root :: "store \<Rightarrow> nat \<Rightarrow> bool" where
  "is_root st r = (r < next_id st \<and> el_parent (nodes st r) = None)"

definition event_path :: "event \<Rightarrow> string" where
  "event_path ev = (case ev of Diff p a b \<Rightarrow> p | Summary p m c w \<Rightarrow> p)"


text \<open>
  Edits in ascending order of start that lie inside a text of length \<open>n\<close>, from offset
  \<open>pos\<close> on, without overlap: for the attribute mutators an edit \<open>(s, e, r)\<close> replaces
  the offsets \<open>s\<close> to \<open>e\<close> inclusive, for set-text the offsets from \<open>s\<close> up to but not
  including \<open>e\<close>. \<open>spliced\<close> and \<open>spliced_excl\<close> are the original text from \<open>pos\<close> on with
  every such range replaced by its new text and everything between the ranges kept.
\<close>

fun disjoint_from :: "nat \<Rightarrow> nat \<Rightarrow> edit list \<Rightarrow> bool" where
  "disjoint_from n pos [] = True"
| "disjoint_from n pos ((s, e, r) # es) =
     (pos \<le> s \<and> s \<le> e \<and> e < n \<and> disjoint_from n (e + 1) es)"

fun spliced :: "nat \<Rightarrow> string \<Rightarrow> edit list \<Rightarrow> string" where
  "spliced pos txt [] = drop pos txt"
| "spliced pos txt ((s, e, r) # es) =
     take (s - pos) (drop pos txt) @ r @ spliced (e + 1) txt es"

fun disjoint_excl_from :: "nat \<Rightarrow> nat \<Rightarrow> edit list \<Rightarrow> bool" where
  "disjoint_excl_from n pos [] = True"
| "disjoint_excl_from n pos ((s, e, r) # es) =
     (pos \<le> s \<and> s \<le> e \<and> e \<le> n \<and> disjoint_excl_from n e es)"

fun spliced_excl :: "nat \<Rightarrow> string \<Rightarrow> edit list \<Rightarrow> string" where
  "spliced_excl pos txt [] = drop pos txt"
| "spliced_excl pos txt ((s, e, r) # es) =
     take (s - pos) (drop pos txt) @ r @ spliced_excl e txt es"

text \<open>The collected edits in ascending order of start: the order of application, reversed.\<close>

definition ascending :: "edit list \<Rightarrow> edit list" where
  "ascending edits = rev (sorted_rev edits)"

text \<open>
  Escaping one character of an attribute value for the quote \<open>q\<close>: the ampersand, the
  angle brackets and the quote \<open>q\<close> itself become entities, every other character, the
  other quote included, stays.
\<close>

definition escape_char :: "char \<Rightarrow> char \<Rightarrow> string" where
  "escape_char q c =
     (if c = CHR ''&'' then ''&amp;'' else if c = CHR ''>'' then ''&gt;''
      else if c = CHR ''<'' then ''&lt;''
      else if c = q then (if q = dq then ''&quot;'' else ''&apos;'') else [c])"

section \<open>Properties of the surgical mutators\<close>

text \<open>
  C6 (code differs). The claim: set-text on a self-closing tag rewrites it to an opening
  tag, the escaped value and a closing tag, so that \<^verbatim>\<open><note/>\<close> with value \<^verbatim>\<open>hi\<close> becomes
  \<^verbatim>\<open><note>hi</note>\<close>. The replacement text is built so, but it is recorded with the
  inclusive end offset of the tag and applied with \<^verbatim>\<open>text[end:]\<close>, which keeps the final
  \<^verbatim>\<open>>\<close> of the old tag: the result is \<^verbatim>\<open><note>hi</note>>\<close>.
\<close>

theorem C6_self_closing_keeps_old_gt:
  "apply_text_surgical ''<note/>'' [leaf ''note'' 1] ''hi'' = Inr (''<note>hi</note>>'', 1)"
  by code_simp

text \<open>
  C2 (code differs). The claim: an existing assignment gets the new value, escaped for
  its quote character only, inside the original quotes. The replacement is handed to
  \<^verbatim>\<open>pattern.sub\<close> as a template, so a backslash in the value is read as an escape: the
  value \<^verbatim>\<open>C:\new\<close> is written with a newline in place of \<^verbatim>\<open>\n\<close>.
\<close>

theorem C2_backslash_in_value_is_expanded:
  "set_attr_in_tag (''<a id='' @ [sq] @ ''x'' @ [sq] @ ''/>'') ''id''
     (''C:'' @ [bsl] @ ''new'') =
   Inr (''<a id='' @ [sq] @ ''C:'' @ [nl] @ ''ew'' @ [sq] @ ''/>'', True)"
  by code_simp

text \<open>
  C3 (code differs). The claim: setting the same attribute to the same value twice gives
  the same tag as setting it once. With a value that holds a newline the first call
  inserts the assignment, and the second call does not find it (the \<^verbatim>\<open>.\<close> of the pattern
  does not match a newline) and inserts it again.
\<close>

theorem C3_second_call_inserts_again:
  "set_attr_in_tag ''<a>'' ''id'' (''x'' @ [nl] @ ''y'') =
     Inr (''<a id='' @ [dq] @ ''x'' @ [nl] @ ''y'' @ [dq] @ ''>'', True) \<and>
   set_attr_in_tag (''<a id='' @ [dq] @ ''x'' @ [nl] @ ''y'' @ [dq] @ ''>'') ''id''
       (''x'' @ [nl] @ ''y'') =
     Inr (''<a id='' @ [dq] @ ''x'' @ [nl] @ ''y'' @ [dq] @
          '' id='' @ [dq] @ ''x'' @ [nl] @ ''y'' @ [dq] @ ''>'', True)"
  by code_simp

text \<open>
  For a name and a value without backslash the replacement is taken literally: where the
  pattern finds an assignment, only the old value between the quotes is replaced, by the
  new value escaped character by character for that quote, and the quote stays.
\<close>

lemma expand_template_plain: "bsl \<notin> set s \<Longrightarrow> expand_template g n s = Inr s"
  by (induction g n s rule: expand_template.induct) auto

lemma not_space_bsl: "\<not> is_space bsl"
  by (simp add: is_space_def)

lemma takeWhile_space_no_bsl: "bsl \<notin> set (takeWhile is_space s)"
  using not_space_bsl by (auto dest: set_takeWhileD)

lemma match_assign_shape:
  assumes "match_assign name s = Some (g, q, old, r)"
  shows "s = g @ [q] @ old @ [q] @ r \<and> (q = dq \<or> q = sq) \<and> q \<notin> set old \<and> nl \<notin> set old \<and>
         (bsl \<notin> set name \<longrightarrow> bsl \<notin> set g)"
proof -
  from assms have p: "prefix name s" by (auto simp: match_assign_def split: if_splits)
  define s1 where "s1 = drop (length name) s"
  have s: "s = name @ s1" using p by (auto simp: prefix_def s1_def)
  define w1 where "w1 = takeWhile is_space s1"
  obtain s3 where s3: "dropWhile is_space s1 = CHR ''='' # s3"
    using assms p by (auto simp: match_assign_def s1_def Let_def split: list.splits if_splits)
  define w2 where "w2 = takeWhile is_space s3"
  obtain q' s5 where s5: "dropWhile is_space s3 = q' # s5" and q': "q' = dq \<or> q' = sq"
    using assms p s3 by (auto simp: match_assign_def s1_def Let_def split: list.splits if_splits)
  define v where "v = takeWhile (\<lambda>x. x \<noteq> q' \<and> x \<noteq> nl) s5"
  obtain r' where r': "dropWhile (\<lambda>x. x \<noteq> q' \<and> x \<noteq> nl) s5 = q' # r'"
    using assms p s3 s5 q' by (auto simp: match_assign_def s1_def Let_def split: list.splits if_splits)
  have res: "g = name @ w1 @ ''='' @ w2" "q = q'" "old = v" "r = r'"
    using assms p s3 s5 q' r'
    by (auto simp: match_assign_def s1_def w1_def w2_def v_def Let_def split: list.splits if_splits)
  have "s1 = w1 @ CHR ''='' # s3" unfolding w1_def s3[symmetric] by simp
  moreover have "s3 = w2 @ q' # s5" unfolding w2_def s5[symmetric] by simp
  moreover have "s5 = v @ q' # r'" unfolding v_def r'[symmetric] by simp
  ultimately have "s = g @ [q] @ old @ [q] @ r" using s res by simp
  moreover have "q \<notin> set old \<and> nl \<notin> set old"
    unfolding res v_def by (auto dest: set_takeWhileD)
  moreover have "bsl \<notin> set name \<longrightarrow> bsl \<notin> set g"
    unfolding res w1_def w2_def using takeWhile_space_no_bsl by auto
  ultimately show ?thesis using q' res by simp
qed

lemma try_ws_shape:
  assumes "try_ws name s k = Some (g, q, old, r)" and "k \<le> length (takeWhile is_space s)"
  shows "s = g @ [q] @ old @ [q] @ r \<and> (q = dq \<or> q = sq) \<and> q \<notin> set old \<and> nl \<notin> set old \<and>
         (bsl \<notin> set name \<longrightarrow> bsl \<notin> set g)"
  using assms
proof (induction k)
  case 0
  then show ?case by simp
next
  case (Suc k)
  show ?case
  proof (cases "match_assign name (drop (Suc k) s)")
    case None
    with Suc show ?thesis by simp
  next
    case (Some m)
    obtain g' q' old' r' where m: "m = (g', q', old', r')" by (cases m) auto
    from Suc.prems(1) Some m have res: "g = take (Suc k) s @ g'" "q = q'" "old = old'" "r = r'"
      by auto
    from match_assign_shape[OF Some[unfolded m]] have
      sh: "drop (Suc k) s = g' @ [q'] @ old' @ [q'] @ r'" "q' = dq \<or> q' = sq"
        "q' \<notin> set old'" "nl \<notin> set old'" "bsl \<notin> set name \<longrightarrow> bsl \<notin> set g'" by auto
    have "take (Suc k) s = take (Suc k) (takeWhile is_space s)"
      using Suc.prems(2) by (metis append_eq_conv_conj takeWhile_dropWhile_id take_append
          diff_is_0_eq take_0 append_Nil2)
    then have "bsl \<notin> set (take (Suc k) s)"
      using takeWhile_space_no_bsl[of s] by (metis in_set_takeD)
    moreover have "s = take (Suc k) s @ drop (Suc k) s" by simp
    ultimately show ?thesis using sh res by (metis (no_types, lifting) Un_iff append.assoc set_append)
  qed
qed

lemma search_attr_shape:
  "search_attr name s = Some (pre, g, q, old, r) \<Longrightarrow>
   s = pre @ g @ [q] @ old @ [q] @ r \<and> (q = dq \<or> q = sq) \<and> q \<notin> set old \<and> nl \<notin> set old \<and>
   (bsl \<notin> set name \<longrightarrow> bsl \<notin> set g)"
proof (induction s arbitrary: pre)
  case Nil
  then show ?case by simp
next
  case (Cons c cs)
  show ?case
  proof (cases "match_here name (c # cs)")
    case (Some m)
    obtain g' q' old' r' where m: "m = (g', q', old', r')" by (cases m) auto
    from Cons.prems Some m have res: "pre = []" "g = g'" "q = q'" "old = old'" "r = r'" by auto
    from Some m have "try_ws name (c # cs) (length (takeWhile is_space (c # cs))) = Some (g', q', old', r')"
      by (simp add: match_here_def)
    from try_ws_shape[OF this] res show ?thesis by simp
  next
    case None
    with Cons.prems obtain p' where
      rec: "search_attr name cs = Some (p', g, q, old, r)" and pre: "pre = c # p'"
      by (auto split: option.splits)
    from Cons.IH[OF rec] pre show ?thesis by simp
  qed
qed

lemma replace_char_no_bsl: "bsl \<notin> set v \<Longrightarrow> bsl \<notin> set w \<Longrightarrow> bsl \<notin> set (replace_char k w v)"
  by (auto simp: replace_char_def)

lemma escape_attr_no_bsl: "bsl \<notin> set v \<Longrightarrow> bsl \<notin> set (escape_attr v q)"
  by (simp add: escape_attr_def xml_escape_def replace_char_no_bsl)

lemma replace_char_concat:
  "replace_char k w (concat (map f s)) = concat (map (\<lambda>c. replace_char k w (f c)) s)"
  by (induction s) (auto simp: replace_char_def)

lemma replace_char_as_map: "replace_char k w s = concat (map (\<lambda>c. if c = k then w else [c]) s)"
  by (simp add: replace_char_def)

lemma escape_attr_by_char:
  assumes "q = dq \<or> q = sq"
  shows "escape_attr v q = concat (map (escape_char q) v)"
proof -
  have "escape_attr v q =
    replace_char q (if q = dq then ''&quot;'' else ''&apos;'')
      (replace_char (CHR ''<'') ''&lt;''
        (replace_char (CHR ''>'') ''&gt;''
          (replace_char (CHR ''&'') ''&amp;'' v)))"
    using assms by (auto simp: escape_attr_def xml_escape_def)
  also have "\<dots> = concat (map (escape_char q) v)"
    unfolding replace_char_as_map[of "CHR ''&''"] replace_char_concat
    using assms by (intro arg_cong[where f = concat] map_cong refl)
      (auto simp: replace_char_def escape_char_def)
  finally show ?thesis .
qed

lemma set_attr_existing_without_backslash:
  assumes "search_attr name tag_text = Some (pre, g1, q, old, rest)"
    and "bsl \<notin> set name" and "bsl \<notin> set v"
  shows "tag_text = pre @ g1 @ [q] @ old @ [q] @ rest \<and> (q = dq \<or> q = sq) \<and>
         set_attr_in_tag tag_text name v =
           Inr (pre @ g1 @ [q] @ concat (map (escape_char q) v) @ [q] @ rest, True)"
proof -
  from search_attr_shape[OF assms(1)] assms(2) have
    sh: "tag_text = pre @ g1 @ [q] @ old @ [q] @ rest" "q = dq \<or> q = sq" "bsl \<notin> set g1" by auto
  have "bsl \<notin> set (g1 @ [q] @ escape_attr v q @ [q])"
    using sh(2,3) escape_attr_no_bsl[OF assms(3), of q] by auto
  then have "expand_template gs 3 (g1 @ [q] @ escape_attr v q @ [q]) = Inr (g1 @ [q] @ escape_attr v q @ [q])"
    for gs by (rule expand_template_plain)
  then have "set_attr_in_tag tag_text name v = Inr (pre @ g1 @ [q] @ escape_attr v q @ [q] @ rest, True)"
    using assms(1) by (simp add: set_attr_in_tag_def Let_def)
  with sh escape_attr_by_char[OF sh(2), of v] show ?thesis by simp
qed

lemma for_each_append:
  "for_each step (xs @ ys) acc =
     (case for_each step xs acc of Inl err \<Rightarrow> Inl err | Inr acc' \<Rightarrow> for_each step ys acc')"
  by (induction xs arbitrary: acc) (auto split: sum.splits)

lemma fold_splice_incl_disjoint:
  "disjoint_from (length txt) pos es \<Longrightarrow>
   fold splice_incl (rev es) txt = take pos txt @ spliced pos txt es"
proof (induction es arbitrary: pos)
  case Nil
  then show ?case by simp
next
  case (Cons ed es)
  obtain s e r where ed: "ed = (s, e, r)" by (cases ed)
  from Cons.prems ed have b: "pos \<le> s" "s \<le> e" "e < length txt"
    and d: "disjoint_from (length txt) (e + 1) es" by auto
  have ih: "fold splice_incl (rev es) txt = take (e + 1) txt @ spliced (e + 1) txt es"
    by (rule Cons.IH[OF d])
  have len: "length (take (e + 1) txt) = e + 1" using b by simp
  have t: "take s (take (e + 1) txt @ spliced (e + 1) txt es) = take s txt"
    using b by (simp add: min_def)
  have dr: "drop (e + 1) (take (e + 1) txt @ spliced (e + 1) txt es) = spliced (e + 1) txt es"
    using len by (metis append_eq_conv_conj)
  have "fold splice_incl (rev (ed # es)) txt = splice_incl (s, e, r) (fold splice_incl (rev es) txt)"
    by (simp add: ed)
  also have "\<dots> = take s txt @ r @ spliced (e + 1) txt es"
    unfolding ih splice_incl_def using t dr by simp
  also have "take s txt = take pos txt @ take (s - pos) (drop pos txt)"
    using b by (metis le_add_diff_inverse take_add)
  finally show ?case by (simp add: ed)
qed

lemma fold_splice_excl_disjoint:
  "disjoint_excl_from (length txt) pos es \<Longrightarrow>
   fold splice_excl (rev es) txt = take pos txt @ spliced_excl pos txt es"
proof (induction es arbitrary: pos)
  case Nil
  then show ?case by simp
next
  case (Cons ed es)
  obtain s e r where ed: "ed = (s, e, r)" by (cases ed)
  from Cons.prems ed have b: "pos \<le> s" "s \<le> e" "e \<le> length txt"
    and d: "disjoint_excl_from (length txt) e es" by auto
  have ih: "fold splice_excl (rev es) txt = take e txt @ spliced_excl e txt es"
    by (rule Cons.IH[OF d])
  have len: "length (take e txt) = e" using b by simp
  have t: "take s (take e txt @ spliced_excl e txt es) = take s txt"
    using b by (simp add: min_def)
  have dr: "drop e (take e txt @ spliced_excl e txt es) = spliced_excl e txt es"
    using len by (metis append_eq_conv_conj)
  have "fold splice_excl (rev (ed # es)) txt = splice_excl (s, e, r) (fold splice_excl (rev es) txt)"
    by (simp add: ed)
  also have "\<dots> = take s txt @ r @ spliced_excl e txt es"
    unfolding ih splice_excl_def using t dr by simp
  also have "take s txt = take pos txt @ take (s - pos) (drop pos txt)"
    using b by (metis le_add_diff_inverse take_add)
  finally show ?case by (simp add: ed)
qed

lemma for_each_invariant:
  assumes "\<And>x a a'. P a \<Longrightarrow> step x a = Inr a' \<Longrightarrow> P a'"
  shows "P acc \<Longrightarrow> for_each step xs acc = Inr acc' \<Longrightarrow> P acc'"
proof (induction xs arbitrary: acc)
  case Nil
  then show ?case by simp
next
  case (Cons x xs)
  then show ?case using assms by (auto split: sum.splits)
qed

lemma attr_step_starts:
  assumes inv: "fst ` set edits \<subseteq> seen \<and> distinct (map fst edits)"
    and st: "attr_step txt starts name v sv el (seen, edits) = Inr (seen', edits')"
  shows "fst ` set edits' \<subseteq> seen' \<and> distinct (map fst edits')"
proof (cases "source_line el \<le> 0 \<or> source_line el > int (length starts)")
  case True
  with st have "seen' = seen" "edits' = edits" by (auto simp: attr_step_def)
  with inv show ?thesis by simp
next
  case False
  show ?thesis
  proof (cases "find_start_tag_span txt (starts ! nat (source_line el - 1)) (local_tag (el_tag el))")
    case None
    with st False have "seen' = seen" "edits' = edits" by (auto simp: attr_step_def)
    with inv show ?thesis by simp
  next
    case (Some sp)
    obtain start e where sp: "sp = (start, e)" by (cases sp)
    show ?thesis
    proof (cases "start \<in> seen")
      case True
      with st False Some sp have "seen' = seen" "edits' = edits" by (auto simp: attr_step_def)
      with inv show ?thesis by simp
    next
      case nseen: False
      from st False Some sp nseen have
        "seen' = insert start seen \<and> (edits' = edits \<or> (\<exists>r. edits' = edits @ [(start, e, r)]))"
        by (auto simp: attr_step_def Let_def split: sum.splits prod.splits if_splits)
      with inv nseen show ?thesis by (fastforce simp: image_subset_iff)
    qed
  qed
qed

lemma collect_attr_starts_distinct:
  assumes "collect_attr txt starts name v sv elements ({}, []) = Inr (seen, edits)"
  shows "distinct (map fst edits)"
proof -
  define P where
    "P = (\<lambda>acc :: nat set \<times> edit list. fst ` set (snd acc) \<subseteq> fst acc \<and> distinct (map fst (snd acc)))"
  have step: "P a'" if "P a" and "attr_step txt starts name v sv x a = Inr a'" for x a a'
    using attr_step_starts[of "snd a" "fst a" "txt" starts name v sv x "fst a'" "snd a'"] that
    by (simp add: P_def)
  have init: "P ({}, [])" by (simp add: P_def)
  have run: "for_each (attr_step txt starts name v sv) elements ({}, []) = Inr (seen, edits)"
    using assms by (simp add: collect_attr_def)
  have "P (seen, edits)"
    by (rule for_each_invariant[where P = P and step = "attr_step txt starts name v sv",
          OF step init run])
  then show ?thesis by (simp add: P_def)
qed

lemma distinct_keys_insort:
  "distinct (map f (insort_key f x xs)) \<longleftrightarrow> f x \<notin> f ` set xs \<and> distinct (map f xs)"
  by (induction xs) (auto simp: set_insort_key)

lemma distinct_keys_sort: "distinct (map f (sort_key f xs)) \<longleftrightarrow> distinct (map f xs)"
  by (induction xs) (auto simp: distinct_keys_insort)

lemma sorted_rev_descending:
  "sorted_wrt (\<lambda>a b. fst a \<ge> fst b) (sorted_rev edits)"
proof -
  have "sorted (map fst (sort_key fst (rev edits)))" by (rule sorted_sort_key)
  then have "sorted_wrt (\<lambda>a b. fst a \<le> fst b) (sort_key fst (rev edits))"
    by (simp add: sorted_wrt_map)
  then show ?thesis by (simp add: sorted_rev_def sorted_wrt_rev)
qed

lemma sorted_rev_strict:
  assumes "distinct (map fst edits)"
  shows "sorted_wrt (\<lambda>a b. fst a > fst b) (sorted_rev edits)"
proof -
  have "sorted (map fst (sort_key fst (rev edits)))" by (rule sorted_sort_key)
  moreover have "distinct (map fst (sort_key fst (rev edits)))"
    using assms by (simp add: distinct_keys_sort rev_map[symmetric])
  ultimately have "sorted_wrt (<) (map fst (sort_key fst (rev edits)))"
    by (simp add: strict_sorted_iff)
  then have "sorted_wrt (\<lambda>a b. fst a < fst b) (sort_key fst (rev edits))"
    by (simp add: sorted_wrt_map)
  then show ?thesis by (simp add: sorted_rev_def sorted_wrt_rev)
qed

text \<open>
  C1 (amended). The claim: the edits are collected first and applied in strictly
  descending order of start offset, every character outside the edited spans is the
  character of the original text, and the change count is the number of edits. What
  holds: the edits are applied in descending order of start (strictly descending for
  set-attr and del-attr, whose starts are distinct) and the count is their number; and
  when the collected ranges, taken in ascending order, lie inside the text without
  overlap, the result is the original text with exactly these ranges replaced. Nothing
  in the code makes the ranges disjoint.
\<close>

theorem C1_disjoint_edits_change_only_their_ranges:
  "(collect_attr txt (line_starts txt) name v sv elements ({}, []) = Inr (seen, edits) \<longrightarrow>
      sorted_wrt (\<lambda>a b. fst a > fst b) (sorted_rev edits) \<and>
      (\<exists>out. apply_attr_surgical txt elements name v sv = Inr (out, length edits) \<and>
         (disjoint_from (length txt) 0 (ascending edits) \<longrightarrow>
            out = spliced 0 txt (ascending edits)))) \<and>
   (collect_text txt (line_starts txt) tv elements ({}, []) = Inr (seen2, edits2) \<longrightarrow>
      sorted_wrt (\<lambda>a b. fst a \<ge> fst b) (sorted_rev edits2) \<and>
      (\<exists>out. apply_text_surgical txt elements tv = Inr (out, length edits2) \<and>
         (disjoint_excl_from (length txt) 0 (ascending edits2) \<longrightarrow>
            out = spliced_excl 0 txt (ascending edits2))))"
proof (intro conjI impI)
  assume a: "collect_attr txt (line_starts txt) name v sv elements ({}, []) = Inr (seen, edits)"
  show "sorted_wrt (\<lambda>a b. fst a > fst b) (sorted_rev edits)"
    using collect_attr_starts_distinct[OF a] by (rule sorted_rev_strict)
  show "\<exists>out. apply_attr_surgical txt elements name v sv = Inr (out, length edits) \<and>
         (disjoint_from (length txt) 0 (ascending edits) \<longrightarrow> out = spliced 0 txt (ascending edits))"
    using a fold_splice_incl_disjoint[of "txt" 0 "ascending edits"]
    by (simp add: apply_attr_surgical_def ascending_def)
next
  assume a: "collect_text txt (line_starts txt) tv elements ({}, []) = Inr (seen2, edits2)"
  show "sorted_wrt (\<lambda>a b. fst a \<ge> fst b) (sorted_rev edits2)" by (rule sorted_rev_descending)
  show "\<exists>out. apply_text_surgical txt elements tv = Inr (out, length edits2) \<and>
         (disjoint_excl_from (length txt) 0 (ascending edits2) \<longrightarrow>
            out = spliced_excl 0 txt (ascending edits2))"
    using a fold_splice_excl_disjoint[of "txt" 0 "ascending edits2"]
    by (simp add: apply_text_surgical_def ascending_def)
qed

theorem C1_witness:
  "apply_attr_surgical two_tag_doc [leaf ''a'' 1, leaf ''b'' 1] ''k'' (Some ''95'') True =
     Inr (''<r><a k='' @ [dq] @ ''95'' @ [dq] @ ''>x</a><b k='' @ [dq] @ ''95'' @ [dq] @
          ''>y</b></r>'', 2) \<and>
   apply_text_surgical two_tag_doc [leaf ''a'' 1, leaf ''b'' 1] ''t'' =
     Inr (''<r><a k='' @ [dq] @ ''1'' @ [dq] @ ''>t</a><b k='' @ [dq] @ ''2'' @ [dq] @
          ''>t</b></r>'', 2)"
proof -
  let ?els = "[leaf ''a'' 1, leaf ''b'' 1]"
  let ?ea = "[(3, 11, ''<a k='' @ [dq] @ ''95'' @ [dq] @ ''>''),
              (17, 25, ''<b k='' @ [dq] @ ''95'' @ [dq] @ ''>'')] :: edit list"
  let ?et = "[(12, 13, ''t''), (26, 27, ''t'')] :: edit list"
  have ca: "collect_attr two_tag_doc (line_starts two_tag_doc) ''k'' (Some ''95'') True ?els ({}, [])
              = Inr ({3, 17}, ?ea)"
    by code_simp
  have ct: "collect_text two_tag_doc (line_starts two_tag_doc) ''t'' ?els ({}, []) = Inr ({3, 17}, ?et)"
    by code_simp
  have da: "disjoint_from (length two_tag_doc) 0 (ascending ?ea)" by code_simp
  have dt: "disjoint_excl_from (length two_tag_doc) 0 (ascending ?et)" by code_simp
  have sa: "spliced 0 two_tag_doc (ascending ?ea) =
      ''<r><a k='' @ [dq] @ ''95'' @ [dq] @ ''>x</a><b k='' @ [dq] @ ''95'' @ [dq] @ ''>y</b></r>''"
    by code_simp
  have st: "spliced_excl 0 two_tag_doc (ascending ?et) =
      ''<r><a k='' @ [dq] @ ''1'' @ [dq] @ ''>t</a><b k='' @ [dq] @ ''2'' @ [dq] @ ''>t</b></r>''"
    by code_simp
  from C1_disjoint_edits_change_only_their_ranges[of two_tag_doc "''k''" "Some ''95''" True ?els
      "{3, 17}" ?ea "''t''" "{3, 17}" ?et] ca ct da dt
  have "apply_attr_surgical two_tag_doc ?els ''k'' (Some ''95'') True =
          Inr (spliced 0 two_tag_doc (ascending ?ea), length ?ea) \<and>
        apply_text_surgical two_tag_doc ?els ''t'' =
          Inr (spliced_excl 0 two_tag_doc (ascending ?et), length ?et)"
    by auto
  then show ?thesis unfolding sa st by simp
qed

text \<open>
  The claim of C1 as stated fails. In \<open>comment_doc\<close> the element \<^verbatim>\<open>a\<close> is located at
  the \<^verbatim>\<open><a\<close> inside the comment, and its span (offsets 8 to 34) contains the span of
  \<^verbatim>\<open>b\<close> (16 to 25). Deleting attribute \<^verbatim>\<open>k\<close> shortens the inner span first; the outer
  edit then cuts at its old end offset, and six characters after both spans, the start
  of the trailing comment, are lost.
\<close>

theorem C1_counterexample:
  "collect_attr comment_doc (line_starts comment_doc) ''k'' None False
       [leaf ''b'' 1, leaf ''a'' 1] ({}, []) =
     Inr ({16, 8},
          [(16, 25, ''<b/>''),
           (8, 34, ''<a '' @ [sq] @ '' --><b/><a/>'' @ [sq] @ ''</r>'')]) \<and>
   drop 35 comment_doc = ''<!-- tail -->'' \<and>
   apply_attr_surgical comment_doc [leaf ''b'' 1, leaf ''a'' 1] ''k'' None False =
     Inr (''<r><!-- <a '' @ [sq] @ '' --><b/><a/>'' @ [sq] @ ''</r>ail -->'', 2) \<and>
   \<not> suffix (drop 35 comment_doc)
       (''<r><!-- <a '' @ [sq] @ '' --><b/><a/>'' @ [sq] @ ''</r>ail -->'')"
  by code_simp





lemma attr_step_not_located:
  "not_located txt el \<Longrightarrow> attr_step txt (line_starts txt) name v sv el acc = Inr acc"
  by (cases acc) (auto simp: not_located_def attr_step_def Let_def split: option.splits)

lemma text_step_not_located:
  "not_located txt el \<Longrightarrow> el_children el = [] \<Longrightarrow>
   text_step txt (line_starts txt) v el acc = Inr acc"
  by (cases acc) (auto simp: not_located_def text_step_def Let_def split: option.splits)

lemma for_each_skip:
  "(\<And>acc. step x acc = Inr acc) \<Longrightarrow> for_each step (pre @ x # post) acc = for_each step (pre @ post) acc"
  by (simp add: for_each_append split: sum.splits)



text \<open>
  C10 (amended). The claim: an element that cannot be located is skipped without error by
  the surgical mutators. For set-attr and del-attr this holds: the element adds no edit,
  and the result is the one without it. set-text first rejects an element that has
  children, whether or not it can be located, so there the same holds for elements
  without children.
\<close>

theorem C10_unlocated_element_is_skipped:
  assumes "not_located txt el"
  shows "attr_step txt (line_starts txt) name v sv el acc = Inr acc \<and>
         apply_attr_surgical txt (pre @ el # post) name v sv =
           apply_attr_surgical txt (pre @ post) name v sv \<and>
         (el_children el = [] \<longrightarrow>
            text_step txt (line_starts txt) tv el acc = Inr acc \<and>
            apply_text_surgical txt (pre @ el # post) tv = apply_text_surgical txt (pre @ post) tv)"
  using assms
  by (simp add: attr_step_not_located text_step_not_located apply_attr_surgical_def
      apply_text_surgical_def collect_attr_def collect_text_def for_each_skip)

text \<open>
  In \<open>unlocated_doc\<close> the element \<^verbatim>\<open>a\<close> is looked for at the \<^verbatim>\<open><a\<close> inside the comment,
  where an apostrophe opens a quote that never closes.
\<close>

theorem C10_witness:
  "apply_attr_surgical unlocated_doc [leaf ''a'' 1] ''k'' (Some ''v'') True = Inr (unlocated_doc, 0) \<and>
   apply_text_surgical unlocated_doc [leaf ''a'' 1] ''hi'' = Inr (unlocated_doc, 0)"
proof -
  have h1: "not_located unlocated_doc (leaf ''a'' 1)" by code_simp
  have h2: "el_children (leaf ''a'' 1) = []" by (simp add: leaf_def)
  have a: "apply_attr_surgical unlocated_doc [] ''k'' (Some ''v'') True = Inr (unlocated_doc, 0)"
    by (simp add: apply_attr_surgical_def collect_attr_def sorted_rev_def)
  have t: "apply_text_surgical unlocated_doc [] ''hi'' = Inr (unlocated_doc, 0)"
    by (simp add: apply_text_surgical_def collect_text_def sorted_rev_def)
  show ?thesis
    using C10_unlocated_element_is_skipped[OF h1, of "''k''" "Some ''v''" True "({}, [])" "[]" "[]" "''hi''"]
      h2 a t
    by simp
qed

text \<open>
  The claim of C10 as stated fails for set-text: the root \<^verbatim>\<open>r\<close> of \<open>unlocated_doc\<close>
  cannot be located either (the \<^verbatim>\<open><r\<close> inside the comment is found first), and it has a
  child, so set-text ends with the selection error instead of skipping it.
\<close>

theorem C10_counterexample:
  "not_located unlocated_doc ((leaf ''r'' 1)\<lparr>el_children := [1]\<rparr>) \<and>
   apply_text_surgical unlocated_doc [(leaf ''r'' 1)\<lparr>el_children := [1]\<rparr>] ''hi'' =
     Inl SelectionError"
  by code_simp
section \<open>Properties of the structural mutator\<close>





lemma deepcopy_frame:
  "next_id st \<le> fst (deepcopy f par st) \<and>
   fst (deepcopy f par st) < next_id (snd (deepcopy f par st)) \<and>
   next_id st \<le> next_id (snd (deepcopy f par st)) \<and>
   (\<forall>x < next_id st. nodes (snd (deepcopy f par st)) x = nodes st x)"
  "(\<forall>c \<in> set (fst (deepcopy_list fs par st)). next_id st \<le> c \<and> c < next_id (snd (deepcopy_list fs par st))) \<and>
   next_id st \<le> next_id (snd (deepcopy_list fs par st)) \<and>
   (\<forall>x < next_id st. nodes (snd (deepcopy_list fs par st)) x = nodes st x)"
proof (induction f par st and fs par st rule: deepcopy_deepcopy_list.induct)
  case (1 tg at tx kids ta sl par st)
  then show ?case
    by (auto simp: Let_def split: prod.splits) (force+)?
next
  case (2 par st)
  then show ?case by simp
next
  case (3 f fs par st)
  then show ?case
    by (auto simp: Let_def split: prod.splits) (force+)?
qed



lemma set_tails_other [simp]:
  "el_parent (nodes (set_tails ns t st) x) = el_parent (nodes st x)"
  "el_children (nodes (set_tails ns t st) x) = el_children (nodes st x)"
  "el_text (nodes (set_tails ns t st) x) = el_text (nodes st x)"
  "next_id (set_tails ns t st) = next_id st"
  by (induction ns t st rule: set_tails.induct) auto

lemma insert_child_fields [simp]:
  "el_tail (nodes (insert_child p idx n st) x) = el_tail (nodes st x)"
  "el_text (nodes (insert_child p idx n st) x) = el_text (nodes st x)"
  "x \<noteq> n \<Longrightarrow> el_parent (nodes (insert_child p idx n st) x) = el_parent (nodes st x)"
  "next_id (insert_child p idx n st) = next_id st"
  by (auto simp: insert_child_def Let_def)


lemma insert_all_fields [simp]:
  "el_tail (nodes (insert_all p idx ns st) x) = el_tail (nodes st x)"
  "el_text (nodes (insert_all p idx ns st) x) = el_text (nodes st x)"
  "next_id (insert_all p idx ns st) = next_id st"
  by (induction ns arbitrary: idx st) auto

lemma insert_all_parent:
  "x \<notin> set ns \<Longrightarrow> el_parent (nodes (insert_all p idx ns st) x) = el_parent (nodes st x)"
  by (induction ns arbitrary: idx st) auto


lemma remove_child_parent:
  "x \<noteq> el \<Longrightarrow> el_parent (nodes (remove_child p el st) x) = el_parent (nodes st x)"
  by (auto simp: remove_child_def Let_def)

lemma remove_child_next [simp]: "next_id (remove_child p el st) = next_id st"
  by (simp add: remove_child_def Let_def)




lemma delete_step_root:
  "is_root st r \<Longrightarrow> delete_step el (st, n) = Inr (st', n') \<Longrightarrow> is_root st' r"
proof -
  assume r: "is_root st r" and d: "delete_step el (st, n) = Inr (st', n')"
  from d obtain p where p: "el_parent (nodes st el) = Some p" and st': "st' = remove_child p el st"
    by (auto simp: delete_step_def split: option.splits)
  from r p have "r \<noteq> el" by (auto simp: is_root_def)
  then show "is_root st' r" using r by (simp add: is_root_def st' remove_child_parent)
qed

lemma replace_step_root:
  assumes "is_root st r" and "replace_step frs ov el (st, n) = Inr (st', n')"
  shows "is_root st' r"
proof -
  obtain clones st1 where dc: "deepcopy_list frs None st = (clones, st1)"
    by (cases "deepcopy_list frs None st")
  have fr: "\<forall>c \<in> set clones. next_id st \<le> c" "\<forall>x < next_id st. nodes st1 x = nodes st x"
    "next_id st \<le> next_id st1"
    using deepcopy_frame(2)[of frs None st] dc by auto
  have r: "r < next_id st" "el_parent (nodes st r) = None" using assms(1) by (auto simp: is_root_def)
  then have rn: "r \<notin> set clones" "nodes st1 r = nodes st r" using fr by auto
  obtain p where p: "el_parent (nodes st el) = Some p"
    using assms(2) by (auto simp: replace_step_def split: option.splits)
  then have "r \<noteq> el" using r by auto
  then show ?thesis
    using assms(2) p dc rn r fr(3)
    by (auto simp: replace_step_def Let_def is_root_def remove_child_parent insert_all_parent)
qed

lemma for_each_delete_root:
  "is_root (fst acc) r \<Longrightarrow> r \<in> set elements \<Longrightarrow> for_each delete_step elements acc = Inl StructuralError"
proof (induction elements arbitrary: acc)
  case Nil
  then show ?case by simp
next
  case (Cons el els)
  obtain st n where acc: "acc = (st, n)" by (cases acc)
  show ?case
  proof (cases "delete_step el (st, n)")
    case (Inl e)
    then have "e = StructuralError" by (auto simp: delete_step_def split: option.splits)
    with Inl acc show ?thesis by simp
  next
    case (Inr acc')
    obtain st' n' where acc': "acc' = (st', n')" by (cases acc')
    have root': "is_root st' r" using delete_step_root Cons.prems(1) Inr acc acc' by auto
    have "r \<noteq> el" using Cons.prems(1) Inr acc by (auto simp: delete_step_def is_root_def)
    then have "r \<in> set els" using Cons.prems(2) by simp
    then show ?thesis using Cons.IH[of acc'] root' acc' Inr acc by simp
  qed
qed

lemma for_each_replace_root:
  "is_root (fst acc) r \<Longrightarrow> r \<in> set elements \<Longrightarrow>
   for_each (replace_step frs ov) elements acc = Inl StructuralError"
proof (induction elements arbitrary: acc)
  case Nil
  then show ?case by simp
next
  case (Cons el els)
  obtain st n where acc: "acc = (st, n)" by (cases acc)
  show ?case
  proof (cases "replace_step frs ov el (st, n)")
    case (Inl e)
    then have "e = StructuralError"
      by (auto simp: replace_step_def Let_def split: option.splits prod.splits)
    with Inl acc show ?thesis by simp
  next
    case (Inr acc')
    obtain st' n' where acc': "acc' = (st', n')" by (cases acc')
    have root': "is_root st' r" using replace_step_root Cons.prems(1) Inr acc acc' by auto
    have "r \<noteq> el" using Cons.prems(1) Inr acc
      by (auto simp: replace_step_def is_root_def split: option.splits)
    then have "r \<in> set els" using Cons.prems(2) by simp
    then show ?thesis using Cons.IH[of acc'] root' acc' Inr acc by simp
  qed
qed


text \<open>
  C4. When the matched elements of a file include the document root, delete and replace
  both fail with the structural error, and the run ends in the world it found: no file
  has been written and nothing has been reported for this file or the ones after it.
\<close>

theorem C4_root_target_fails_without_writing:
  assumes "files w path = Some data"
    and "ext_parse ext data (a_huge a) (a_recover a) = Some tr"
    and "ext_xpath ext tr (a_xpath a) ns = Some items"
    and "ensure_elements (limit items (a_limit a)) = Inr elements"
    and "tr_root tr \<in> set elements"
    and "is_root (tr_store tr) (tr_root tr)"
  shows "run_files (mutate_one ext a apply_delete ns) (path # rest) w =
           (w, Some StructuralError) \<and>
         run_files (mutate_one ext a (\<lambda>st els. apply_replace st els frs ov) ns) (path # rest) w =
           (w, Some StructuralError)"
proof -
  have d: "apply_delete (tr_store tr) elements = Inl StructuralError"
    unfolding apply_delete_def using assms(5,6) by (intro for_each_delete_root[where r = "tr_root tr"]) simp_all
  have r: "apply_replace (tr_store tr) elements frs ov = Inl StructuralError"
    unfolding apply_replace_def using assms(5,6) by (intro for_each_replace_root[where r = "tr_root tr"]) simp_all
  have "mutate_one ext a apply_delete ns path w = Inl StructuralError"
    using assms(1-4) d by (simp add: mutate_one_def parse_doc_def split: prod.splits)
  moreover have "mutate_one ext a (\<lambda>st els. apply_replace st els frs ov) ns path w = Inl StructuralError"
    using assms(1-4) r by (simp add: mutate_one_def parse_doc_def split: prod.splits)
  ultimately show ?thesis by simp
qed

theorem C4_witness:
  "run_files (mutate_one demo_lxml (demo_args [''good.xml''] ''/r'') apply_delete Map.empty)
     [''good.xml''] demo_world = (demo_world, Some StructuralError) \<and>
   run_files (mutate_one demo_lxml (demo_args [''good.xml''] ''/r'')
       (\<lambda>st els. apply_replace st els [Fragment ''n'' [] None [] None None] None) Map.empty)
     [''good.xml''] demo_world = (demo_world, Some StructuralError)"
proof -
  have h1: "files demo_world ''good.xml'' = Some ''<r><a/></r>''" by (simp add: demo_world_def)
  have h2: "ext_parse demo_lxml ''<r><a/></r>'' (a_huge (demo_args [''good.xml''] ''/r''))
              (a_recover (demo_args [''good.xml''] ''/r'')) = Some demo_tree"
    by (simp add: demo_lxml_def)
  have h3: "ext_xpath demo_lxml demo_tree (a_xpath (demo_args [''good.xml''] ''/r'')) Map.empty
              = Some [Element 0]"
    by (simp add: demo_lxml_def demo_args_def)
  have h4: "ensure_elements (limit [Element 0] (a_limit (demo_args [''good.xml''] ''/r''))) = Inr [0]"
    by (simp add: ensure_elements_def limit_def demo_args_def)
  have h5: "tr_root demo_tree \<in> set [0]" by (simp add: demo_tree_def)
  have h6: "is_root (tr_store demo_tree) (tr_root demo_tree)"
    by (simp add: is_root_def demo_tree_def demo_store_def leaf_def)
  show ?thesis using C4_root_target_fails_without_writing[OF h1 h2 h3 h4 h5 h6] by simp
qed

text \<open>
  The same through the command: \<^verbatim>\<open>delete\<close> with the query \<^verbatim>\<open>/r\<close> on \<^verbatim>\<open>good.xml\<close> ends
  with the structural error, prints nothing and leaves the file as it was.
\<close>

lemma cmd_delete_root_example:
  "snd (cmd_delete demo_lxml (demo_args [''good.xml''] ''/r'') demo_world) = Some StructuralError \<and>
   printed (fst (cmd_delete demo_lxml (demo_args [''good.xml''] ''/r'') demo_world)) = [] \<and>
   files (fst (cmd_delete demo_lxml (demo_args [''good.xml''] ''/r'') demo_world)) ''good.xml'' =
     Some ''<r><a/></r>''"
  by code_simp
section \<open>Properties of the driver\<close>

lemma run_files_append:
  "run_files step (xs @ ys) w =
     (case run_files step xs w of
        (w1, None) \<Rightarrow> run_files step ys w1
      | (w1, Some err) \<Rightarrow> (w1, Some err))"
  by (induction xs arbitrary: w) (auto split: sum.splits)

lemma mutate_one_frame:
  assumes "mutate_one ext a m ns path w = Inr w'"
  shows "(\<forall>q. q \<noteq> path \<longrightarrow> files w' q = files w q) \<and>
         (\<exists>evs. printed w' = printed w @ evs \<and> (\<forall>ev \<in> set evs. event_path ev = path))"
  using assms
  by (auto simp: mutate_one_def Let_def event_path_def
           split: sum.splits option.splits prod.splits if_splits)

lemma run_files_frame:
  "run_files (mutate_one ext a m ns) ps w = (w1, r) \<Longrightarrow>
   (\<forall>q. q \<notin> set ps \<longrightarrow> files w1 q = files w q) \<and>
   (\<exists>evs. printed w1 = printed w @ evs \<and> (\<forall>ev \<in> set evs. event_path ev \<in> set ps))"
proof (induction ps arbitrary: w)
  case Nil
  then show ?case by simp
next
  case (Cons p ps)
  show ?case
  proof (cases "mutate_one ext a m ns p w")
    case (Inl e)
    with Cons.prems show ?thesis by simp
  next
    case (Inr w')
    with Cons.prems have r: "run_files (mutate_one ext a m ns) ps w' = (w1, r)" by simp
    from mutate_one_frame[OF Inr] obtain evs where
      f1: "\<forall>q. q \<noteq> p \<longrightarrow> files w' q = files w q" and
      e1: "printed w' = printed w @ evs" "\<forall>ev \<in> set evs. event_path ev = p" by blast
    from Cons.IH[OF r] obtain evs' where
      f2: "\<forall>q. q \<notin> set ps \<longrightarrow> files w1 q = files w' q" and
      e2: "printed w1 = printed w' @ evs'" "\<forall>ev \<in> set evs'. event_path ev \<in> set ps" by blast
    have "printed w1 = printed w @ (evs @ evs')" using e1 e2 by simp
    moreover have "\<forall>ev \<in> set (evs @ evs'). event_path ev \<in> set (p # ps)" using e1 e2 by auto
    ultimately have "\<exists>evs. printed w1 = printed w @ evs \<and> (\<forall>ev \<in> set evs. event_path ev \<in> set (p # ps))"
      by blast
    moreover have "\<forall>q. q \<notin> set (p # ps) \<longrightarrow> files w1 q = files w q" using f1 f2 by simp
    ultimately show ?thesis by blast
  qed
qed

text \<open>
  C7 (amended). The claim: a parse error on one file of a batch is fatal for that file
  only, and the remaining files are still processed. In the code \<^verbatim>\<open>parse_doc\<close> calls
  \<^verbatim>\<open>fail\<close>, which raises \<^verbatim>\<open>SystemExit\<close> out of the loop over the paths. What holds: when
  the files before \<open>p\<close> went through and \<open>p\<close> does not parse, the run ends there with the
  parse error; only the files before \<open>p\<close> have been written or reported, whatever files
  follow.
\<close>

theorem C7_parse_error_ends_the_batch:
  assumes "run_files (mutate_one ext a m ns) pre w = (w1, None)"
    and "files w1 p = Some data"
    and "ext_parse ext data (a_huge a) (a_recover a) = None"
  shows "run_files (mutate_one ext a m ns) (pre @ p # post) w = (w1, Some ParseError) \<and>
         (\<forall>q. q \<notin> set pre \<longrightarrow> files w1 q = files w q) \<and>
         (\<exists>evs. printed w1 = printed w @ evs \<and> (\<forall>ev \<in> set evs. event_path ev \<in> set pre))"
proof -
  have "mutate_one ext a m ns p w1 = Inl ParseError"
    using assms(2,3) by (simp add: mutate_one_def parse_doc_def split: prod.splits)
  then have "run_files (mutate_one ext a m ns) (pre @ p # post) w = (w1, Some ParseError)"
    using assms(1) by (simp add: run_files_append)
  with run_files_frame[OF assms(1)] show ?thesis by simp
qed

theorem C7_witness:
  "run_files
     (mutate_one demo_lxml (demo_args [''good.xml'', ''bad.xml'', ''later.xml''] ''/r/a'')
        apply_delete Map.empty)
     [''good.xml'', ''bad.xml'', ''later.xml''] demo_world =
   (\<lparr>files = [''bad.xml'' \<mapsto> ''<r><a'', ''good.xml'' \<mapsto> ''<r/>''],
     printed = [Summary ''good.xml'' 1 1 True]\<rparr>, Some ParseError)"
proof -
  let ?a = "demo_args [''good.xml'', ''bad.xml'', ''later.xml''] ''/r/a''"
  let ?w1 = "\<lparr>files = [''bad.xml'' \<mapsto> ''<r><a'', ''good.xml'' \<mapsto> ''<r/>''],
              printed = [Summary ''good.xml'' 1 1 True]\<rparr>"
  have ad: "apply_delete demo_store [Suc 0] = Inr (remove_child 0 (Suc 0) demo_store, 1)"
    by (simp add: apply_delete_def delete_step_def demo_store_def leaf_def)
  have h1: "run_files (mutate_one demo_lxml ?a apply_delete Map.empty) [''good.xml''] demo_world
              = (?w1, None)"
    by (simp add: mutate_one_def parse_doc_def demo_lxml_def demo_args_def demo_tree_def
        demo_world_def detect_decl_and_encoding_def decl_match_def is_space_ascii_def
        ensure_elements_def limit_def ad serialize_def Let_def)
  have h2: "files ?w1 ''bad.xml'' = Some ''<r><a''" by simp
  have h3: "ext_parse demo_lxml ''<r><a'' (a_huge ?a) (a_recover ?a) = None"
    by (simp add: demo_lxml_def)
  show ?thesis
    using C7_parse_error_ends_the_batch[OF h1 h2 h3, of "[''later.xml'']"] by simp
qed

text \<open>
  The claim of C7 as stated fails: in the batch of \<^verbatim>\<open>bad.xml\<close> and \<^verbatim>\<open>good.xml\<close> the run
  ends with the parse error of the first file, nothing is printed and \<^verbatim>\<open>good.xml\<close> is
  left as it was, although the same command on \<^verbatim>\<open>good.xml\<close> alone reports one change
  and writes the file.
\<close>

theorem C7_counterexample:
  "snd (mutate_files demo_lxml (demo_args [''bad.xml'', ''good.xml''] ''/r/a'') apply_delete demo_world)
     = Some ParseError \<and>
   printed (fst (mutate_files demo_lxml (demo_args [''bad.xml'', ''good.xml''] ''/r/a'') apply_delete
     demo_world)) = [] \<and>
   files (fst (mutate_files demo_lxml (demo_args [''bad.xml'', ''good.xml''] ''/r/a'') apply_delete
     demo_world)) ''good.xml'' = Some ''<r><a/></r>'' \<and>
   snd (mutate_files demo_lxml (demo_args [''good.xml''] ''/r/a'') apply_delete demo_world) = None \<and>
   printed (fst (mutate_files demo_lxml (demo_args [''good.xml''] ''/r/a'') apply_delete demo_world))
     = [Summary ''good.xml'' 1 1 True] \<and>
   files (fst (mutate_files demo_lxml (demo_args [''good.xml''] ''/r/a'') apply_delete demo_world))
     ''good.xml'' = Some ''<r/>''"
  by code_simp




lemma take_over_value:
  "length E < n \<Longrightarrow> take n (E @ q # X) = E @ q # take (n - length E - 1) X"
  by (simp add: take_Cons')





end
